theory Spec2Isabelle
  imports Main
begin

section \<open>Python values shared by the modules\<close>

text \<open>
  A Python \<open>str\<close> is a sequence of Unicode code points, so a string is a list of
  natural numbers; \<open>str\<close> turns an ASCII literal into that form.
\<close>

type_synonym pystr = "nat list"

definition str :: "string \<Rightarrow> pystr" where
  "str s = map of_char s"

text \<open>
  A call into a collaborator (memory backend, HTTP client) either returns a value or
  raises an \<open>Exception\<close>, carried here with its message \<open>str(e)\<close>.
\<close>

datatype 'a outcome = Raises pystr | Returns 'a

fun raised :: "'a outcome \<Rightarrow> bool" where
  "raised (Raises e) = True"
| "raised (Returns r) = False"


subsection \<open>String methods\<close>

text \<open>
  \<open>str.isspace\<close> on one character, which is also what \<open>\s\<close> matches in a \<open>str\<close>
  pattern: the code points Python treats as whitespace.
\<close>

definition isspace :: "nat \<Rightarrow> bool" where
  "isspace c \<longleftrightarrow>
     (9 \<le> c \<and> c \<le> 13) \<or> (28 \<le> c \<and> c \<le> 32) \<or> c = 133 \<or> c = 160 \<or> c = 5760
     \<or> (8192 \<le> c \<and> c \<le> 8202) \<or> c = 8232 \<or> c = 8233 \<or> c = 8239 \<or> c = 8287
     \<or> c = 12288"

text \<open>\<open>s.strip()\<close>, \<open>s.split('\n')\<close> and \<open>'\n'.join(lines)\<close>; code point 10 is the newline.\<close>

definition strip :: "pystr \<Rightarrow> pystr" where
  "strip s = rev (dropWhile isspace (rev (dropWhile isspace s)))"

fun split_nl :: "pystr \<Rightarrow> pystr list" where
  "split_nl [] = [[]]"
| "split_nl (c # cs) =
     (if c = 10 then [] # split_nl cs
      else (case split_nl cs of l # ls \<Rightarrow> (c # l) # ls | [] \<Rightarrow> [[c]]))"

fun join_nl :: "pystr list \<Rightarrow> pystr" where
  "join_nl [] = []"
| "join_nl [l] = l"
| "join_nl (l # ls) = l @ 10 # join_nl ls"

subsection \<open>Regular expressions\<close>

text \<open>
  The fragment of \<open>re\<close> the source's patterns use. Every quantified atom in them is a
  character class, so repetition is over classes: \<open>Rep lo hi P\<close> is the greedy
  \<open>P{lo,hi}\<close> (\<open>hi = None\<close> for no upper bound), \<open>Lazy P\<close> is \<open>P*?\<close>. \<open>Alt r Eps\<close> is
  the greedy \<open>(?:r)?\<close>, \<open>Group\<close> a capturing group, \<open>Look\<close> the lookahead \<open>(?=r)\<close>,
  \<open>Eol\<close> the anchor \<open>$\<close> without \<open>re.MULTILINE\<close>.
\<close>

datatype rx =
    Cls "nat \<Rightarrow> bool"
  | Lit pystr
  | Rep nat "nat option" "nat \<Rightarrow> bool"
  | Lazy "nat \<Rightarrow> bool"
  | Eps
  | Seq rx rx
  | Alt rx rx
  | Group rx
  | Look rx
  | Eol

text \<open>
  A backtracking matcher explores its choices in a fixed order and takes the first
  that lets the rest of the pattern match. The functions below return, in that order,
  what is left of the input after each way of matching.
\<close>

fun greedy :: "nat \<Rightarrow> nat option \<Rightarrow> (nat \<Rightarrow> bool) \<Rightarrow> pystr \<Rightarrow> pystr list" where
  "greedy lo hi P [] = (if lo = 0 then [[]] else [])"
| "greedy lo hi P (c # cs) =
     (if P c \<and> hi \<noteq> Some 0 then greedy (lo - 1) (map_option (\<lambda>h. h - 1) hi) P cs else [])
     @ (if lo = 0 then [c # cs] else [])"

fun lazy :: "(nat \<Rightarrow> bool) \<Rightarrow> pystr \<Rightarrow> pystr list" where
  "lazy P [] = [[]]"
| "lazy P (c # cs) = (c # cs) # (if P c then lazy P cs else [])"

text \<open>
  The state of a match is the list of groups captured so far and the input left.
  None of the patterns looks behind the current position.
\<close>

fun rx_run :: "rx \<Rightarrow> pystr list \<times> pystr \<Rightarrow> (pystr list \<times> pystr) list" where
  "rx_run (Cls P) (gs, s) = (case s of [] \<Rightarrow> [] | c # cs \<Rightarrow> if P c then [(gs, cs)] else [])"
| "rx_run (Lit l) (gs, s) = (if take (length l) s = l then [(gs, drop (length l) s)] else [])"
| "rx_run (Rep lo hi P) (gs, s) = map (Pair gs) (greedy lo hi P s)"
| "rx_run (Lazy P) (gs, s) = map (Pair gs) (lazy P s)"
| "rx_run Eps st = [st]"
| "rx_run (Seq a b) st = concat (map (rx_run b) (rx_run a st))"
| "rx_run (Alt a b) st = rx_run a st @ rx_run b st"
| "rx_run (Group r) (gs, s) =
     map (\<lambda>(gs', s'). (gs' @ [take (length s - length s') s], s')) (rx_run r (gs, s))"
| "rx_run (Look r) st = (if rx_run r st = [] then [] else [st])"
| "rx_run Eol (gs, s) = (if s = [] \<or> s = [10] then [(gs, s)] else [])"

fun seqs :: "rx list \<Rightarrow> rx" where
  "seqs [] = Eps"
| "seqs [r] = r"
| "seqs (r # rs) = Seq r (seqs rs)"

fun alts :: "rx list \<Rightarrow> rx" where
  "alts [] = Eps"
| "alts [r] = r"
| "alts (r # rs) = Alt r (alts rs)"

text \<open>
  \<open>re.match\<close> tries the pattern at the start of the string only; it gives the groups
  and the text after the match.
\<close>

definition re_match :: "rx \<Rightarrow> pystr \<Rightarrow> (pystr list \<times> pystr) option" where
  "re_match r s = (case rx_run r ([], s) of [] \<Rightarrow> None | m # _ \<Rightarrow> Some m)"

text \<open>
  \<open>re.search\<close> tries every start position from the left, the end of the string
  included; it gives the text before the match, the groups and the text after it.
\<close>

fun re_search :: "rx \<Rightarrow> pystr \<Rightarrow> (pystr \<times> pystr list \<times> pystr) option" where
  "re_search r [] = (case rx_run r ([], []) of [] \<Rightarrow> None | (gs, rest) # _ \<Rightarrow> Some ([], gs, rest))"
| "re_search r (c # cs) =
     (case rx_run r ([], c # cs) of
        (gs, rest) # _ \<Rightarrow> Some ([], gs, rest)
      | [] \<Rightarrow> map_option (\<lambda>(pre, gs, rest). (c # pre, gs, rest)) (re_search r cs))"

text \<open>\<open>match.group(i)\<close> for \<open>i \<ge> 1\<close>.\<close>

definition group :: "pystr list \<Rightarrow> nat \<Rightarrow> pystr" where
  "group gs i = gs ! (i - 1)"

text \<open>
  \<open>re.split(pattern, s, 1)\<close>: the text before the first match, the groups of the
  pattern, the text after the match; the string alone when nothing matches.
\<close>

definition re_split1 :: "rx \<Rightarrow> pystr \<Rightarrow> pystr list" where
  "re_split1 r s = (case re_search r s of None \<Rightarrow> [s] | Some (pre, gs, rest) \<Rightarrow> [pre] @ gs @ [rest])"

text \<open>
  \<open>re.finditer\<close>: the matches from left to right, each search starting where the last
  match ended. The patterns it is used with consume at least one character in every
  match; after an empty match the scan moves on by one character.
\<close>

function finditer :: "rx \<Rightarrow> pystr \<Rightarrow> pystr list list" where
  "finditer r s =
     (case rx_run r ([], s) of
        (gs, rest) # _ \<Rightarrow>
          gs # (if length rest < length s then finditer r rest
                else (case s of [] \<Rightarrow> [] | c # cs \<Rightarrow> finditer r cs))
      | [] \<Rightarrow> (case s of [] \<Rightarrow> [] | c # cs \<Rightarrow> finditer r cs))"
  by pat_completeness auto
termination
  by (relation "measure (\<lambda>(r, s). length s)") auto

declare finditer.simps [simp del]

section \<open>markdown\_processor.py: sections\<close>

text \<open>A section as \<open>extract_sections\<close> returns it: \<open>{'level', 'header', 'content'}\<close>.\<close>

record section_rec =
  level :: nat
  header :: pystr
  content :: pystr

text \<open>
  \<open>header_pattern = r'^(#{1,3})\s+(.+)$'\<close>, used with \<open>re.match\<close>, which anchors it at
  the start of the line; the dot matches everything but the newline.
\<close>

definition header_pattern :: rx where
  "header_pattern =
     seqs [Group (Rep 1 (Some 3) (\<lambda>c. c = 35)), Rep 1 None isspace,
           Group (Rep 1 None (\<lambda>c. c \<noteq> 10)), Eol]"

text \<open>
  The loop over the lines. Its state is the list \<open>sections\<close>, \<open>current_section\<close> (the
  marker string and the header, \<open>None\<close> before the first header line) and
  \<open>current_content\<close>.
\<close>

type_synonym sections_state = "section_rec list \<times> (pystr \<times> pystr) option \<times> pystr list"

definition flush_section :: "(pystr \<times> pystr) \<Rightarrow> pystr list \<Rightarrow> section_rec" where
  "flush_section cur cont =
     \<lparr>level = length (fst cur), header = snd cur, content = join_nl cont\<rparr>"

fun sections_loop :: "pystr list \<Rightarrow> sections_state \<Rightarrow> sections_state" where
  "sections_loop [] acc = acc"
| "sections_loop (line # lines) (sections, cur, cont) =
     (case re_match header_pattern line of
        Some (gs, rest) \<Rightarrow>
          sections_loop lines
            ((case cur of Some c \<Rightarrow> sections @ [flush_section c cont] | None \<Rightarrow> sections),
             Some (group gs 1, strip (group gs 2)), [])
      | None \<Rightarrow>
          (case cur of
             Some c \<Rightarrow> sections_loop lines (sections, cur, cont @ [line])
           | None \<Rightarrow> sections_loop lines (sections, cur, cont)))"

definition extract_sections :: "pystr \<Rightarrow> section_rec list" where
  "extract_sections markdown_text =
     (case sections_loop (split_nl markdown_text) ([], None, []) of
        (sections, Some c, cont) \<Rightarrow> sections @ [flush_section c cont]
      | (sections, None, cont) \<Rightarrow>
          (if sections = [] \<and> strip markdown_text \<noteq> []
           then sections @ [\<lparr>level = 0, header = str ''General Facts from File'',
                             content = strip markdown_text\<rparr>]
           else sections))"


section \<open>markdown\_processor.py: dates\<close>

text \<open>
  \<open>\d\<close> in a \<open>str\<close> pattern matches every Unicode decimal digit (category Nd). The
  digits come in runs of ten consecutive code points, zero first; \<open>nd_bases\<close> lists the
  zero of each run (Unicode 14), and \<open>digit_val\<close> is the value \<open>int\<close> gives the digit.
\<close>

definition nd_bases :: "nat list" where
  "nd_bases = [48, 1632, 1776, 1984, 2406, 2534, 2662, 2790, 2918, 3046, 3174, 3302, 3430,
     3558, 3664, 3792, 3872, 4160, 4240, 6112, 6160, 6470, 6608, 6784, 6800, 6992, 7088,
     7232, 7248, 42528, 43216, 43264, 43472, 43504, 43600, 44016, 65296, 66720, 68912,
     69734, 69872, 69942, 70096, 70384, 70736, 70864, 71248, 71360, 71472, 71904, 72016,
     72784, 73040, 73120, 92768, 92864, 93008, 120782, 120792, 120802, 120812, 120822,
     123200, 123632, 125264, 130032]"

definition digit_val :: "nat \<Rightarrow> nat option" where
  "digit_val c = map_option (\<lambda>b. c - b) (find (\<lambda>b. b \<le> c \<and> c < b + 10) nd_bases)"

definition isdigit :: "nat \<Rightarrow> bool" where
  "isdigit c \<longleftrightarrow> digit_val c \<noteq> None"

text \<open>A \<open>datetime\<close> without time zone; none of the formats has fractions of a second.\<close>

record datetime =
  year :: nat
  month :: nat
  day :: nat
  hour :: nat
  minute :: nat
  second :: nat

text \<open>
  The three patterns of \<open>parse_date\<close>, in the order of \<open>date_patterns\<close>:
  \<^verbatim>\<open>(\d{1,2}/\d{1,2}/\d{2,4}\s+\d{1,2}:\d{2}\s*(?:AM|PM|am|pm)?)\<close>,
  \<^verbatim>\<open>(\d{4}-\d{2}-\d{2}\s+\d{2}:\d{2}(?::\d{2})?)\<close> and
  \<^verbatim>\<open>(\d{1,2}\s+(?:Jan|Feb|Mar|Apr|May|Jun|Jul|Aug|Sep|Oct|Nov|Dec)[a-z]*\s+\d{2,4})\<close>.
\<close>

definition slash_date_rx :: "rx list" where
  "slash_date_rx =
     [Rep 1 (Some 2) isdigit, Lit (str ''/''), Rep 1 (Some 2) isdigit, Lit (str ''/''),
      Rep 2 (Some 4) isdigit, Rep 1 None isspace, Rep 1 (Some 2) isdigit, Lit (str '':''),
      Rep 2 (Some 2) isdigit, Rep 0 None isspace,
      Alt (alts [Lit (str ''AM''), Lit (str ''PM''), Lit (str ''am''), Lit (str ''pm'')]) Eps]"

definition date_pattern1 :: rx where
  "date_pattern1 = Group (seqs slash_date_rx)"

definition date_pattern2 :: rx where
  "date_pattern2 =
     Group (seqs [Rep 4 (Some 4) isdigit, Lit (str ''-''), Rep 2 (Some 2) isdigit,
       Lit (str ''-''), Rep 2 (Some 2) isdigit, Rep 1 None isspace, Rep 2 (Some 2) isdigit,
       Lit (str '':''), Rep 2 (Some 2) isdigit,
       Alt (Seq (Lit (str '':'')) (Rep 2 (Some 2) isdigit)) Eps])"

definition date_pattern3 :: rx where
  "date_pattern3 =
     Group (seqs [Rep 1 (Some 2) isdigit, Rep 1 None isspace,
       alts (map (\<lambda>m. Lit (str m)) [''Jan'', ''Feb'', ''Mar'', ''Apr'', ''May'', ''Jun'',
                                     ''Jul'', ''Aug'', ''Sep'', ''Oct'', ''Nov'', ''Dec'']),
       Rep 0 None (\<lambda>c. 97 \<le> c \<and> c \<le> 122), Rep 1 None isspace, Rep 2 (Some 4) isdigit])"

definition date_patterns :: "rx list" where
  "date_patterns = [date_pattern1, date_pattern2, date_pattern3]"

definition date_formats :: "pystr list" where
  "date_formats = map str [''%m/%d/%y %I:%M %p'', ''%m/%d/%Y %I:%M %p'',
     ''%Y-%m-%d %H:%M:%S'', ''%Y-%m-%d %H:%M'', ''%d %b %Y'', ''%d %B %Y'']"

text \<open>
  \<open>datetime.strptime(date_text, fmt)\<close> is a library function: it returns a datetime,
  raises \<open>ValueError\<close>, or raises something else. \<open>parse_date\<close> is modelled for any such
  function; \<open>py_strptime\<close> below is the one of CPython.
\<close>

datatype strp_result = Parsed datetime | ValueError | OtherError pystr

type_synonym strptime_fn = "pystr \<Rightarrow> pystr \<Rightarrow> strp_result"

text \<open>
  The inner loop over the formats: the first format that parses returns from
  \<open>parse_date\<close>; a \<open>ValueError\<close> goes on to the next format; any other exception leaves
  the loop for the outer handler, which logs a warning.
\<close>

datatype fmt_loop = Found datetime | Exhausted | Aborted pystr

fun try_formats :: "strptime_fn \<Rightarrow> pystr \<Rightarrow> pystr list \<Rightarrow> fmt_loop" where
  "try_formats strptime date_text [] = Exhausted"
| "try_formats strptime date_text (fmt # fmts) =
     (case strptime date_text fmt of
        Parsed d \<Rightarrow> Found d
      | ValueError \<Rightarrow> try_formats strptime date_text fmts
      | OtherError e \<Rightarrow> Aborted e)"

text \<open>
  The outer loop over the patterns: when a pattern matches and no format parses its
  text, the loop goes on with the next pattern.
\<close>

fun parse_date_loop :: "strptime_fn \<Rightarrow> rx list \<Rightarrow> pystr \<Rightarrow> datetime option" where
  "parse_date_loop strptime [] date_str = None"
| "parse_date_loop strptime (pattern # patterns) date_str =
     (case re_search pattern date_str of
        None \<Rightarrow> parse_date_loop strptime patterns date_str
      | Some (pre, gs, rest) \<Rightarrow>
          (case try_formats strptime (group gs 1) date_formats of
             Found d \<Rightarrow> Some d
           | Exhausted \<Rightarrow> parse_date_loop strptime patterns date_str
           | Aborted e \<Rightarrow> parse_date_loop strptime patterns date_str))"

definition parse_date :: "strptime_fn \<Rightarrow> pystr \<Rightarrow> datetime option" where
  "parse_date strptime date_str = parse_date_loop strptime date_patterns date_str"

subsection \<open>CPython's strptime on the directives of the six formats\<close>

text \<open>
  \<open>_strptime\<close> turns the format into a regular expression (one named group per
  directive, every run of whitespace into \<open>\s+\<close>, other characters literally),
  compiles it with \<open>re.IGNORECASE\<close>, matches it at the start of the text and raises
  \<open>ValueError\<close> when it does not match or when text is left over. Month and AM/PM
  names are those of the C locale. A directive outside the six formats is not modelled.
\<close>

datatype fmt_item = Directive nat | Spaces | Literal nat | Stray

fun fmt_items :: "pystr \<Rightarrow> fmt_item list" where
  "fmt_items [] = []"
| "fmt_items [c] = [if c = 37 then Stray else if isspace c then Spaces else Literal c]"
| "fmt_items (c # d # cs) =
     (if c = 37 then Directive d # fmt_items cs
      else if isspace c then
        (case fmt_items (d # cs) of Spaces # r \<Rightarrow> Spaces # r | r \<Rightarrow> Spaces # r)
      else Literal c # fmt_items (d # cs))"

definition ascii_lower :: "nat \<Rightarrow> nat" where
  "ascii_lower c = (if 65 \<le> c \<and> c \<le> 90 then c + 32 else c)"

definition ci :: "string \<Rightarrow> rx" where
  "ci l = seqs (map (\<lambda>x. Cls (\<lambda>c. ascii_lower c = x)) (str l))"

definition ch :: "string \<Rightarrow> rx" where
  "ch l = Lit (str l)"

definition rng :: "nat \<Rightarrow> nat \<Rightarrow> rx" where
  "rng a b = Cls (\<lambda>c. 48 + a \<le> c \<and> c \<le> 48 + b)"

definition a_month :: "string list" where
  "a_month = [''jan'', ''feb'', ''mar'', ''apr'', ''may'', ''jun'',
              ''jul'', ''aug'', ''sep'', ''oct'', ''nov'', ''dec'']"

definition f_month :: "string list" where
  "f_month = [''january'', ''february'', ''march'', ''april'', ''may'', ''june'', ''july'',
              ''august'', ''september'', ''october'', ''november'', ''december'']"

text \<open>
  The regular expression of each directive, as in \<open>TimeRE\<close>; names are tried longest
  first. The keys are the directive letters
  \<open>d = 100, H = 72, I = 73, m = 109, M = 77, S = 83, y = 121, Y = 89, p = 112, b = 98, B = 66\<close>.
\<close>

definition directive_rx :: "nat \<Rightarrow> rx option" where
  "directive_rx k =
     (if k = 100 then Some (alts [Seq (ch ''3'') (rng 0 1), Seq (rng 1 2) (Cls isdigit),
                                  Seq (ch ''0'') (rng 1 9), rng 1 9, Seq (ch '' '') (rng 1 9)])
      else if k = 72 then Some (alts [Seq (ch ''2'') (rng 0 3), Seq (rng 0 1) (Cls isdigit),
                                      Cls isdigit])
      else if k = 73 \<or> k = 109 then
        Some (alts [Seq (ch ''1'') (rng 0 2), Seq (ch ''0'') (rng 1 9), rng 1 9])
      else if k = 77 then Some (alts [Seq (rng 0 5) (Cls isdigit), Cls isdigit])
      else if k = 83 then Some (alts [Seq (ch ''6'') (rng 0 1), Seq (rng 0 5) (Cls isdigit),
                                      Cls isdigit])
      else if k = 121 then Some (Rep 2 (Some 2) isdigit)
      else if k = 89 then Some (Rep 4 (Some 4) isdigit)
      else if k = 112 then Some (alts [ci ''am'', ci ''pm''])
      else if k = 98 then Some (alts (map ci a_month))
      else if k = 66 then
        Some (alts (map ci [''september'', ''february'', ''november'', ''december'',
              ''january'', ''october'', ''august'', ''march'', ''april'', ''june'', ''july'',
              ''may'']))
      else None)"

fun item_rx :: "fmt_item \<Rightarrow> rx option" where
  "item_rx (Directive k) = map_option Group (directive_rx k)"
| "item_rx Spaces = Some (Rep 1 None isspace)"
| "item_rx (Literal c) = Some (Cls (\<lambda>x. ascii_lower x = ascii_lower c))"
| "item_rx Stray = None"

fun directive_keys :: "fmt_item list \<Rightarrow> nat list" where
  "directive_keys [] = []"
| "directive_keys (Directive k # is) = k # directive_keys is"
| "directive_keys (i # is) = directive_keys is"

text \<open>\<open>int(text)\<close> on the text of a group: digits, after leading whitespace.\<close>

fun int_digits :: "nat \<Rightarrow> pystr \<Rightarrow> nat" where
  "int_digits acc [] = acc"
| "int_digits acc (c # cs) = int_digits (10 * acc + (case digit_val c of Some v \<Rightarrow> v | None \<Rightarrow> 0)) cs"

definition py_int :: "pystr \<Rightarrow> nat" where
  "py_int s = int_digits 0 (dropWhile isspace s)"

fun index_of :: "'a \<Rightarrow> 'a list \<Rightarrow> nat option" where
  "index_of x [] = None"
| "index_of x (y # ys) = (if x = y then Some 0 else map_option Suc (index_of x ys))"

text \<open>The fields a directive sets; \<open>%I\<close> reads the text of \<open>%p\<close>, empty when absent.\<close>

definition hour12 :: "nat \<Rightarrow> pystr \<Rightarrow> nat" where
  "hour12 h ampm =
     (if ampm = [] \<or> ampm = str ''am'' then (if h = 12 then 0 else h)
      else if ampm = str ''pm'' then (if h \<noteq> 12 then h + 12 else h)
      else h)"

fun set_field :: "(nat \<times> pystr) list \<Rightarrow> datetime option \<Rightarrow> nat \<times> pystr \<Rightarrow> datetime option" where
  "set_field found None kv = None"
| "set_field found (Some t) (k, v) =
     (if k = 121 then Some (t\<lparr>year := (if py_int v \<le> 68 then py_int v + 2000 else py_int v + 1900)\<rparr>)
      else if k = 89 then Some (t\<lparr>year := py_int v\<rparr>)
      else if k = 109 then Some (t\<lparr>month := py_int v\<rparr>)
      else if k = 66 then
        map_option (\<lambda>i. t\<lparr>month := Suc i\<rparr>) (index_of (map ascii_lower v) (map str f_month))
      else if k = 98 then
        map_option (\<lambda>i. t\<lparr>month := Suc i\<rparr>) (index_of (map ascii_lower v) (map str a_month))
      else if k = 100 then Some (t\<lparr>day := py_int v\<rparr>)
      else if k = 72 then Some (t\<lparr>hour := py_int v\<rparr>)
      else if k = 73 then
        Some (t\<lparr>hour := hour12 (py_int v)
                 (case map_of found 112 of None \<Rightarrow> [] | Some p \<Rightarrow> map ascii_lower p)\<rparr>)
      else if k = 77 then Some (t\<lparr>minute := py_int v\<rparr>)
      else if k = 83 then Some (t\<lparr>second := py_int v\<rparr>)
      else Some t)"

definition is_leap :: "nat \<Rightarrow> bool" where
  "is_leap y \<longleftrightarrow> y mod 4 = 0 \<and> (y mod 100 \<noteq> 0 \<or> y mod 400 = 0)"

definition days_in_month :: "nat \<Rightarrow> nat \<Rightarrow> nat" where
  "days_in_month y m =
     (if m = 2 then (if is_leap y then 29 else 28)
      else if m = 4 \<or> m = 6 \<or> m = 9 \<or> m = 11 then 30 else 31)"

text \<open>The checks of the \<open>date\<close> and \<open>datetime\<close> constructors on the parsed fields.\<close>

definition valid_datetime :: "datetime \<Rightarrow> bool" where
  "valid_datetime t \<longleftrightarrow>
     1 \<le> year t \<and> year t \<le> 9999 \<and> 1 \<le> month t \<and> month t \<le> 12 \<and> 1 \<le> day t
     \<and> day t \<le> days_in_month (year t) (month t)
     \<and> hour t \<le> 23 \<and> minute t \<le> 59 \<and> second t \<le> 59"

fun those_rx :: "rx option list \<Rightarrow> rx list option" where
  "those_rx [] = Some []"
| "those_rx (None # rs) = None"
| "those_rx (Some r # rs) = map_option ((#) r) (those_rx rs)"

definition py_strptime :: strptime_fn where
  "py_strptime date_text fmt =
     (let items = fmt_items fmt in
      case those_rx (map item_rx items) of
        None \<Rightarrow> OtherError (str ''directive not modelled'')
      | Some rs \<Rightarrow>
          (case rx_run (seqs rs) ([], date_text) of
             [] \<Rightarrow> ValueError
           | (gs, rest) # _ \<Rightarrow>
               (if rest \<noteq> [] then ValueError
                else (let found = zip (directive_keys items) gs in
                  case foldl (set_field found)
                         (Some \<lparr>year = 1900, month = 1, day = 1, hour = 0, minute = 0,
                                second = 0\<rparr>) found of
                    None \<Rightarrow> ValueError
                  | Some t \<Rightarrow> if valid_datetime t then Parsed t else ValueError))))"

section \<open>markdown\_processor.py: entries\<close>

text \<open>
  An entry as \<open>extract_conversation_entries\<close> returns it: \<open>{'timestamp', 'content'}\<close>
  (\<open>entry_content\<close> here, the name \<open>content\<close> being the section's field).
\<close>

record entry =
  timestamp :: "datetime option"
  entry_content :: pystr

text \<open>
  \<^verbatim>\<open>entry_pattern = r'[-*]\s*(.*?)(?=\n[-*]|\n\n|\n$|$)'\<close> with \<open>re.DOTALL\<close>, under which
  the dot matches every character; 45 is the hyphen, 42 the asterisk.
\<close>

definition entry_pattern :: rx where
  "entry_pattern =
     seqs [Cls (\<lambda>c. c = 45 \<or> c = 42), Rep 0 None isspace, Group (Lazy (\<lambda>c. True)),
           Look (alts [Seq (Lit [10]) (Cls (\<lambda>c. c = 45 \<or> c = 42)), Lit [10, 10],
                       Seq (Lit [10]) Eol, Eol])]"

text \<open>
  The pattern of the \<open>re.split\<close> that takes the timestamp off an entry:
  \<^verbatim>\<open>\d{1,2}/\d{1,2}/\d{2,4}\s+\d{1,2}:\d{2}\s*(?:AM|PM|am|pm)?[:\s]*\<close>.
\<close>

definition split_pattern :: rx where
  "split_pattern = seqs (slash_date_rx @ [Rep 0 None (\<lambda>c. c = 58 \<or> isspace c)])"

text \<open>The body of the loop over the matches, on \<open>match.group(1)\<close>.\<close>

definition entry_of :: "strptime_fn \<Rightarrow> pystr \<Rightarrow> entry" where
  "entry_of strptime g1 =
     (let entry_text = strip g1 in
      case parse_date strptime entry_text of
        Some t \<Rightarrow>
          (let content_parts = re_split1 split_pattern entry_text in
           \<lparr>timestamp = Some t,
            entry_content = (if length content_parts > 1 then strip (content_parts ! 1)
                             else entry_text)\<rparr>)
      | None \<Rightarrow> \<lparr>timestamp = None, entry_content = entry_text\<rparr>)"

definition extract_conversation_entries :: "strptime_fn \<Rightarrow> pystr \<Rightarrow> entry list" where
  "extract_conversation_entries strptime section_content =
     (let entries = map (\<lambda>gs. entry_of strptime (group gs 1))
                        (finditer entry_pattern section_content) in
      if entries = [] \<and> strip section_content \<noteq> [] then
        entries @ map (\<lambda>line_content. \<lparr>timestamp = None, entry_content = line_content\<rparr>)
                    (filter (\<lambda>line_content. line_content \<noteq> [])
                       (map strip (split_nl (strip section_content))))
      else entries)"

section \<open>memory\_manager.py: the fact store\<close>

text \<open>
  A record created by the backend, as \<open>memory.add\<close> and \<open>memory.search\<close> return
  them in the \<open>'results'\<close> list: every record carries its \<open>'id'\<close> and \<open>'memory'\<close> text.
\<close>

record mem_record =
  rec_id :: pystr
  memory :: pystr

text \<open>
  The value returned by a backend call: \<open>None\<close>, or a dict whose \<open>'results'\<close> entry is
  absent (\<open>None\<close> here) or a list of records.
\<close>

datatype mem_result = ResNone | ResDict "mem_record list option"

text \<open>The test \<open>result and result.get('results')\<close>.\<close>

fun has_results :: "mem_result \<Rightarrow> bool" where
  "has_results ResNone = False"
| "has_results (ResDict None) = False"
| "has_results (ResDict (Some rs)) = (rs \<noteq> [])"

type_synonym metadata = "(pystr \<times> pystr) list option"

text \<open>
  The backend's \<open>add\<close>: the outcome of a call may depend on how many calls were made
  before it and on the arguments \<open>(fact, user_id, metadata)\<close>.
\<close>

type_synonym add_backend = "nat \<Rightarrow> pystr \<Rightarrow> pystr \<Rightarrow> metadata \<Rightarrow> mem_result outcome"

text \<open>
  The effects on the outside: the number of backend \<open>add\<close> and \<open>search\<close> calls and of
  requests to the language model made so far, and the time spent in \<open>time.sleep\<close>, in
  milliseconds.
\<close>

record store_state =
  add_calls :: nat
  search_calls :: nat
  llm_calls :: nat
  slept_ms :: nat

text \<open>\<open>user_id or self.user_id\<close>: \<open>None\<close> and the empty string are both falsy.\<close>

fun or_default :: "pystr option \<Rightarrow> pystr \<Rightarrow> pystr" where
  "or_default None d = d"
| "or_default (Some u) d = (if u = [] then d else u)"

text \<open>
  The loop \<open>for attempt in range(max_retries)\<close> of \<open>add_fact\<close>, from \<open>attempt\<close> on.
  Both branches of the success path return the result as it is (the first logs
  \<open>result['results'][0]['memory']\<close>, which every record of a non-empty list has); an
  exception is caught, and either the loop sleeps two seconds and goes on, or (last
  attempt) it returns \<open>None\<close>. A loop that ends without a return gives \<open>None\<close> as
  well.
\<close>

function add_fact_loop ::
  "add_backend \<Rightarrow> pystr \<Rightarrow> pystr \<Rightarrow> metadata \<Rightarrow> int \<Rightarrow> int \<Rightarrow> store_state
     \<Rightarrow> mem_result \<times> store_state" where
  "add_fact_loop backend ftext user_id md max_retries attempt st =
     (if attempt < max_retries then
        (let st1 = st\<lparr>add_calls := Suc (add_calls st)\<rparr> in
         case backend (add_calls st) ftext user_id md of
           Returns result \<Rightarrow>
             (if has_results result then (result, st1) else (result, st1))
         | Raises e \<Rightarrow>
             (if attempt < max_retries - 1
              then add_fact_loop backend ftext user_id md max_retries (attempt + 1)
                     (st1\<lparr>slept_ms := slept_ms st1 + 2000\<rparr>)
              else (ResNone, st1)))
      else (ResNone, st))"
  by pat_completeness auto
termination
  by (relation "measure (\<lambda>(backend, ftext, user_id, md, max_retries, attempt, st).
        nat (max_retries - attempt))") auto

declare add_fact_loop.simps [simp del]

definition add_fact ::
  "add_backend \<Rightarrow> pystr \<Rightarrow> pystr \<Rightarrow> pystr option \<Rightarrow> metadata \<Rightarrow> int \<Rightarrow> store_state
     \<Rightarrow> mem_result \<times> store_state" where
  "add_fact backend self_user_id ftext user_id md max_retries st =
     add_fact_loop backend ftext (or_default user_id self_user_id) md max_retries 0 st"


text \<open>
  \<open>search_memories\<close>: one backend call; any exception is caught and gives \<open>None\<close>. The
  backend's \<open>search\<close> takes the query, the user id and the limit.
\<close>

type_synonym search_backend = "nat \<Rightarrow> pystr \<Rightarrow> pystr \<Rightarrow> int \<Rightarrow> mem_result outcome"

definition search_memories ::
  "search_backend \<Rightarrow> pystr \<Rightarrow> pystr \<Rightarrow> pystr option \<Rightarrow> int \<Rightarrow> store_state
     \<Rightarrow> mem_result \<times> store_state" where
  "search_memories search self_user_id query user_id limit st =
     (case search (search_calls st) query (or_default user_id self_user_id) limit of
        Returns results \<Rightarrow> results
      | Raises e \<Rightarrow> ResNone,
      st\<lparr>search_calls := Suc (search_calls st)\<rparr>)"

text \<open>
  \<open>_call_ollama_api\<close>: the request either raises (connection error, error status,
  invalid JSON, missing configuration key) or gives the decoded JSON, of which only
  the \<open>'response'\<close> entry matters (\<open>None\<close> when absent). An exception is logged and
  raised again.
\<close>

type_synonym llm_service = "nat \<Rightarrow> pystr \<Rightarrow> pystr option outcome"

definition call_ollama_api :: "llm_service \<Rightarrow> pystr \<Rightarrow> store_state \<Rightarrow> pystr outcome \<times> store_state" where
  "call_ollama_api ollama prompt st =
     (case ollama (llm_calls st) prompt of
        Raises e \<Rightarrow> Raises e
      | Returns None \<Rightarrow> Returns (str ''Sorry, I couldn't generate a response.'')
      | Returns (Some response) \<Rightarrow> Returns (strip response),
      st\<lparr>llm_calls := Suc (llm_calls st)\<rparr>)"

text \<open>
  \<open>max_context_memories or config_value\<close>, where the caller passes the value of
  \<open>chat_options.max_context_memories\<close> of the configuration, 5 when it is not set.
\<close>

fun or_default_int :: "int option \<Rightarrow> int \<Rightarrow> int" where
  "or_default_int None d = d"
| "or_default_int (Some n) d = (if n = 0 then d else n)"

text \<open>The context block and the prompt of \<open>chat\<close>; 8226 is the bullet, 8594 the arrow.\<close>

definition chat_context :: "pystr \<Rightarrow> mem_result \<Rightarrow> pystr" where
  "chat_context user_id memories =
     (if \<not> has_results memories
      then str ''No specific information available about '' @ user_id @ str ''.''
      else str ''Facts about '' @ user_id @ str '':'' @ [10]
           @ join_nl (map (\<lambda>mem. [8226, 32] @ memory mem)
                          (case memories of ResDict (Some rs) \<Rightarrow> rs | _ \<Rightarrow> [])))"

definition chat_prompt :: "pystr \<Rightarrow> pystr \<Rightarrow> pystr \<Rightarrow> pystr" where
  "chat_prompt user_id context query = join_nl
     [str ''You are a helpful personal assistant for '' @ user_id
        @ str ''. You have access to the following facts about '' @ user_id @ str '':'',
      [],
      context,
      [],
      str ''IMPORTANT INSTRUCTIONS:'',
      str ''- When the user says \"I\", \"me\", \"my\", or \"mine\", they are referring to ''
        @ user_id,
      str ''- Use the facts above to answer questions confidently when the information is available'',
      str ''- Connect related concepts (e.g., \"favorite food\" relates to \"what I like to eat\")'',
      str ''- Give natural, conversational responses as if you know '' @ user_id
        @ str '' personally'',
      str ''- Only say you don't know if the facts truly don't contain relevant information'',
      [],
      str ''Examples of how to handle pronouns:'',
      str ''- \"What do I like?\" '' @ [8594] @ str '' \"What does '' @ user_id @ str '' like?\"'',
      str ''- \"What's my favorite?\" '' @ [8594] @ str '' \"What's '' @ user_id
        @ [39] @ str ''s favorite?\"'',
      str ''- \"Tell me about myself\" '' @ [8594] @ str '' \"Tell me about '' @ user_id
        @ str ''\"'',
      [],
      str ''User question: '' @ query,
      [],
      str ''Provide a helpful, natural response based on the available facts:'']"

text \<open>
  \<open>chat\<close>: the search, the prompt and the request to the model are inside one \<open>try\<close>
  whose handler returns the apology followed by \<open>str(e)\<close>.
\<close>

definition chat ::
  "search_backend \<Rightarrow> llm_service \<Rightarrow> pystr \<Rightarrow> int \<Rightarrow> pystr \<Rightarrow> pystr option \<Rightarrow> int option
     \<Rightarrow> store_state \<Rightarrow> pystr \<times> store_state" where
  "chat search ollama self_user_id config_max_context query user_id max_context_memories st =
     (let uid = or_default user_id self_user_id;
          limit = or_default_int max_context_memories config_max_context;
          (memories, st1) = search_memories search self_user_id query (Some uid) limit st;
          (reply, st2) = call_ollama_api ollama
                           (chat_prompt uid (chat_context uid memories) query) st1
      in (case reply of
            Returns response \<Rightarrow> response
          | Raises e \<Rightarrow> str ''Sorry, I encountered an error: '' @ e,
          st2))"

section \<open>markdown\_processor.py: facts and files\<close>

text \<open>
  The collaborators of the processor: \<open>strptime\<close>, \<open>get_prompt\<close> of the prompt manager
  (on context, time context and content), the model, the backend's \<open>add\<close> and the
  reading of a file.
\<close>

record services =
  sv_strptime :: strptime_fn
  sv_get_prompt :: "pystr \<Rightarrow> pystr \<Rightarrow> pystr \<Rightarrow> pystr outcome"
  sv_ollama :: llm_service
  sv_add :: add_backend
  sv_read_file :: "pystr \<Rightarrow> pystr outcome"

definition pad2 :: "nat \<Rightarrow> pystr" where
  "pad2 n = [48 + n div 10 mod 10, 48 + n mod 10]"

definition pad4 :: "nat \<Rightarrow> pystr" where
  "pad4 n = [48 + n div 1000 mod 10, 48 + n div 100 mod 10, 48 + n div 10 mod 10, 48 + n mod 10]"

text \<open>The timestamp's \<open>isoformat()\<close>; 84 is the letter T.\<close>

definition isoformat :: "datetime \<Rightarrow> pystr" where
  "isoformat t = pad4 (year t) @ str ''-'' @ pad2 (month t) @ str ''-'' @ pad2 (day t) @ [84]
                 @ pad2 (hour t) @ str '':'' @ pad2 (minute t) @ str '':'' @ pad2 (second t)"

definition month_names :: "string list" where
  "month_names = [''January'', ''February'', ''March'', ''April'', ''May'', ''June'', ''July'',
                  ''August'', ''September'', ''October'', ''November'', ''December'']"

text \<open>
  \<^verbatim>\<open>timestamp.strftime('%B %d, %Y at %I:%M %p')\<close> in the C locale. The C library
  writes the year of \<open>%Y\<close> without padding (\<open>202\<close> for the year 202); a datetime has
  its year between 1 and 9999 and its month between 1 and 12.
\<close>

definition strftime_year :: "nat \<Rightarrow> pystr" where
  "strftime_year y =
     (if y < 10 then [48 + y]
      else if y < 100 then pad2 y
      else if y < 1000 then (48 + y div 100) # pad2 (y mod 100)
      else pad4 y)"

definition strftime_recorded :: "datetime \<Rightarrow> pystr" where
  "strftime_recorded t =
     str (month_names ! (month t - 1)) @ str '' '' @ pad2 (day t) @ str '', ''
     @ strftime_year (year t)
     @ str '' at ''
     @ pad2 (if hour t mod 12 = 0 then 12 else hour t mod 12) @ str '':'' @ pad2 (minute t)
     @ str '' '' @ (if hour t < 12 then str ''AM'' else str ''PM'')"

definition extract_facts_with_llm ::
  "services \<Rightarrow> pystr \<Rightarrow> pystr \<Rightarrow> datetime option \<Rightarrow> store_state \<Rightarrow> pystr list \<times> store_state" where
  "extract_facts_with_llm sv context entry_text ts st =
     (let time_context =
            (case ts of
               Some t \<Rightarrow> str ''This information was recorded on '' @ strftime_recorded t
                         @ str ''.''
             | None \<Rightarrow> []);
          prompt = (case sv_get_prompt sv context time_context entry_text of
                      Returns p \<Rightarrow> p
                    | Raises e \<Rightarrow> str ''Extract key facts from: '' @ entry_text);
          (reply, st1) = call_ollama_api (sv_ollama sv) prompt st
      in (case reply of
            Returns response \<Rightarrow>
              map strip (filter (\<lambda>f. strip f \<noteq> []) (split_nl (strip response)))
          | Raises e \<Rightarrow> [],
          st1))"

text \<open>
  The loop \<open>for fact in facts\<close> of \<open>process_file\<close>: one \<open>add_fact\<close> per fact, with the
  default \<open>max_retries = 3\<close>; \<open>added_facts\<close> goes up when the result has records.
\<close>

fun add_facts ::
  "services \<Rightarrow> pystr \<Rightarrow> pystr \<Rightarrow> metadata \<Rightarrow> pystr list \<Rightarrow> nat \<Rightarrow> store_state
     \<Rightarrow> nat \<times> store_state" where
  "add_facts sv self_user_id user_id md [] added_facts st = (added_facts, st)"
| "add_facts sv self_user_id user_id md (f # fs) added_facts st =
     (case add_fact (sv_add sv) self_user_id f (Some user_id) md 3 st of
        (result, st1) \<Rightarrow>
          add_facts sv self_user_id user_id md fs
            (if has_results result then added_facts + 1 else added_facts) st1)"

text \<open>
  The loop over the entries of a section. An entry whose content is empty or shorter
  than ten characters after stripping is skipped; the others go to the model, and
  the loop sleeps half a second after each of them.
\<close>

fun process_entries ::
  "services \<Rightarrow> pystr \<Rightarrow> pystr \<Rightarrow> pystr \<Rightarrow> entry list \<Rightarrow> nat \<times> nat \<Rightarrow> store_state
     \<Rightarrow> (nat \<times> nat) \<times> store_state" where
  "process_entries sv self_user_id user_id section_header [] counts st = (counts, st)"
| "process_entries sv self_user_id user_id section_header (e # es) (total_facts, added_facts) st =
     (if entry_content e = [] \<or> length (strip (entry_content e)) < 10
      then process_entries sv self_user_id user_id section_header es
             (total_facts, added_facts) st
      else
        (case extract_facts_with_llm sv section_header (entry_content e) (timestamp e) st of
           (facts, st1) \<Rightarrow>
             (case add_facts sv self_user_id user_id
                     (case timestamp e of
                        Some t \<Rightarrow> Some [(str ''timestamp'', isoformat t)]
                      | None \<Rightarrow> Some [])
                     facts added_facts st1 of
                (added_facts', st2) \<Rightarrow>
                  process_entries sv self_user_id user_id section_header es
                    (total_facts + length facts, added_facts')
                    (st2\<lparr>slept_ms := slept_ms st2 + 500\<rparr>))))"

fun process_sections ::
  "services \<Rightarrow> pystr \<Rightarrow> pystr \<Rightarrow> section_rec list \<Rightarrow> nat \<times> nat \<Rightarrow> store_state
     \<Rightarrow> (nat \<times> nat) \<times> store_state" where
  "process_sections sv self_user_id user_id [] counts st = (counts, st)"
| "process_sections sv self_user_id user_id (sec # secs) counts st =
     (case process_entries sv self_user_id user_id (header sec)
             (extract_conversation_entries (sv_strptime sv) (content sec)) counts st of
        (counts', st1) \<Rightarrow> process_sections sv self_user_id user_id secs counts' st1)"

text \<open>
  \<open>process_file\<close> returns \<open>(total_facts, added_facts)\<close>; a file that cannot be read
  gives \<open>(0, 0)\<close>.
\<close>

definition process_file ::
  "services \<Rightarrow> pystr \<Rightarrow> pystr \<Rightarrow> pystr option \<Rightarrow> store_state \<Rightarrow> (nat \<times> nat) \<times> store_state" where
  "process_file sv self_user_id file_path user_id st =
     (case sv_read_file sv file_path of
        Raises e \<Rightarrow> ((0, 0), st)
      | Returns markdown_text \<Rightarrow>
          process_sections sv self_user_id (or_default user_id self_user_id)
            (extract_sections markdown_text) (0, 0) st)"

section \<open>The round trip of the specification\<close>

text \<open>
  The specification renders a section as its heading marker (\<open>#\<close> repeated \<open>level\<close>
  times), its heading text and its body, and compares the concatenation of the
  rendered sections with the input in which every heading line is normalised to
  that form.
\<close>

definition is_header :: "pystr \<Rightarrow> bool" where
  "is_header line \<longleftrightarrow> re_match header_pattern line \<noteq> None"

definition render_section :: "section_rec \<Rightarrow> pystr list" where
  "render_section sec =
     (replicate (level sec) 35 @ [32] @ header sec) # split_nl (content sec)"

definition render_sections :: "section_rec list \<Rightarrow> pystr" where
  "render_sections secs = join_nl (concat (map render_section secs))"

definition normalize_line :: "pystr \<Rightarrow> pystr" where
  "normalize_line line =
     (case re_match header_pattern line of
        Some (gs, rest) \<Rightarrow> group gs 1 @ [32] @ strip (group gs 2)
      | None \<Rightarrow> line)"

definition normalize_markers :: "pystr \<Rightarrow> pystr" where
  "normalize_markers markdown_text = join_nl (map normalize_line (split_nl markdown_text))"

text \<open>
  Every heading line is followed by at least one line that is not a heading;
  \<open>pending\<close> says that the last heading has no such line yet.
\<close>

fun headings_have_body :: "bool \<Rightarrow> pystr list \<Rightarrow> bool" where
  "headings_have_body pending [] = (\<not> pending)"
| "headings_have_body pending (line # lines) =
     (if is_header line then \<not> pending \<and> headings_have_body True lines
      else headings_have_body False lines)"

text \<open>The normalised heading line of an open section.\<close>

definition heading_line :: "pystr \<times> pystr \<Rightarrow> pystr" where
  "heading_line c = fst c @ [32] @ snd c"

section \<open>Auxiliary notions\<close>



text \<open>
  A pattern does not yield a date for a string: it does not match, or no format
  parses the text of its match.
\<close>

definition pattern_fails :: "strptime_fn \<Rightarrow> pystr \<Rightarrow> rx \<Rightarrow> bool" where
  "pattern_fails strptime date_str pattern =
     (case re_search pattern date_str of
        None \<Rightarrow> True
      | Some (pre, gs, rest) \<Rightarrow>
          (case try_formats strptime (group gs 1) date_formats of
             Found d \<Rightarrow> False | Exhausted \<Rightarrow> True | Aborted e \<Rightarrow> True))"




text \<open>
  The results of the \<open>add_fact\<close> calls that the loop over the facts makes, in order.
\<close>

fun add_results ::
  "services \<Rightarrow> pystr \<Rightarrow> pystr \<Rightarrow> metadata \<Rightarrow> pystr list \<Rightarrow> store_state \<Rightarrow> mem_result list" where
  "add_results sv self_user_id user_id md [] st = []"
| "add_results sv self_user_id user_id md (f # fs) st =
     (case add_fact (sv_add sv) self_user_id f (Some user_id) md 3 st of
        (result, st1) \<Rightarrow> result # add_results sv self_user_id user_id md fs st1)"

section \<open>Scripted collaborators\<close>

text \<open>
  A backend that accepts every call and creates no record, a model that answers
  with two facts, and a file of one bulleted entry.
\<close>

definition empty_backend :: add_backend where
  "empty_backend n ftext user_id md = Returns (ResDict (Some []))"

definition notes_services :: services where
  "notes_services =
     \<lparr>sv_strptime = py_strptime,
      sv_get_prompt = (\<lambda>context time_context entry_text. Returns entry_text),
      sv_ollama = (\<lambda>n prompt. Returns (Some (str ''User loves pizza\<newline>User knows Mario\<newline>''))),
      sv_add = empty_backend,
      sv_read_file = (\<lambda>path. Returns (str ''# Notes\<newline>- 3/29/25 9:10 AM: I love pizza at Mario's\<newline>''))\<rparr>"

text \<open>
  Two scripted backends, after the repository's own retry test: one whose first call
  fails and whose later calls create a record, and one that is down.
\<close>

definition flaky_backend :: add_backend where
  "flaky_backend n ftext user_id md =
     (if n = 0 then Raises (str ''Temporary failure'')
      else Returns (ResDict (Some [\<lparr>rec_id = str ''test-id'', memory = str ''Test memory''\<rparr>])))"

definition down_backend :: add_backend where
  "down_backend n ftext user_id md = Raises (str ''Connection refused'')"

section \<open>Properties of the fact store\<close>

lemma add_fact_loop_calls_le:
  "add_calls (snd (add_fact_loop backend ftext u md m a st)) \<le> add_calls st + nat (m - a)"
proof (induction backend ftext u md m a st rule: add_fact_loop.induct)
  case (1 backend ftext u md m a st)
  show ?case
  proof (cases "a < m")
    case False
    then show ?thesis by (simp add: add_fact_loop.simps[of backend ftext u md m a st])
  next
    case True
    show ?thesis
    proof (cases "backend (add_calls st) ftext u md")
      case (Returns r)
      with True show ?thesis
        by (simp add: add_fact_loop.simps[of backend ftext u md m a st] Let_def)
    next
      case (Raises e)
      show ?thesis
      proof (cases "a < m - 1")
        case False
        with True Raises show ?thesis
          by (simp add: add_fact_loop.simps[of backend ftext u md m a st] Let_def)
      next
        case lt: True
        from "1.IH"[OF True refl Raises lt]
        have "add_calls (snd (add_fact_loop backend ftext u md m (a + 1)
                 (st\<lparr>add_calls := Suc (add_calls st), slept_ms := slept_ms st + 2000\<rparr>)))
              \<le> Suc (add_calls st) + nat (m - (a + 1))" by simp
        moreover have "Suc (add_calls st) + nat (m - (a + 1)) = add_calls st + nat (m - a)"
          using True by simp
        ultimately show ?thesis using True Raises lt
          by (simp add: add_fact_loop.simps[of backend ftext u md m a st] Let_def)
      qed
    qed
  qed
qed

lemma add_fact_loop_first_success:
  "a + int j < m \<Longrightarrow> (\<forall>i<j. raised (backend (add_calls st + i) ftext u md)) \<Longrightarrow>
   backend (add_calls st + j) ftext u md = Returns r \<Longrightarrow>
   fst (add_fact_loop backend ftext u md m a st) = r \<and>
   add_calls (snd (add_fact_loop backend ftext u md m a st)) = add_calls st + Suc j"
proof (induction j arbitrary: a st)
  case 0
  then show ?case by (simp add: add_fact_loop.simps[of backend ftext u md m a st] Let_def)
next
  case (Suc j)
  from Suc.prems(2) have r0: "raised (backend (add_calls st) ftext u md)" by force
  then obtain e where e: "backend (add_calls st) ftext u md = Raises e"
    by (cases "backend (add_calls st) ftext u md") auto
  let ?st = "st\<lparr>add_calls := Suc (add_calls st), slept_ms := slept_ms st + 2000\<rparr>"
  have "\<forall>i<j. raised (backend (add_calls ?st + i) ftext u md)"
    using Suc.prems(2) by (auto dest: spec[of _ "Suc _"])
  moreover have "backend (add_calls ?st + j) ftext u md = Returns r" using Suc.prems(3) by simp
  moreover have "(a + 1) + int j < m" using Suc.prems(1) by simp
  ultimately have "fst (add_fact_loop backend ftext u md m (a + 1) ?st) = r \<and>
     add_calls (snd (add_fact_loop backend ftext u md m (a + 1) ?st)) = add_calls ?st + Suc j"
    using Suc.IH[of "a + 1" ?st] by blast
  moreover have "a < m" "a < m - 1" using Suc.prems(1) by auto
  ultimately show ?case using e
    by (simp add: add_fact_loop.simps[of backend ftext u md m a st] Let_def)
qed

lemma add_fact_loop_all_fail:
  "a < m \<Longrightarrow> (\<forall>i < nat (m - a). raised (backend (add_calls st + i) ftext u md)) \<Longrightarrow>
   fst (add_fact_loop backend ftext u md m a st) = ResNone \<and>
   add_calls (snd (add_fact_loop backend ftext u md m a st)) = add_calls st + nat (m - a)"
proof (induction backend ftext u md m a st rule: add_fact_loop.induct)
  case (1 backend ftext u md m a st)
  from "1.prems" have r0: "raised (backend (add_calls st) ftext u md)" by force
  then obtain e where e: "backend (add_calls st) ftext u md = Raises e"
    by (cases "backend (add_calls st) ftext u md") auto
  show ?case
  proof (cases "a < m - 1")
    case False
    with "1.prems"(1) have "nat (m - a) = 1" by simp
    with False "1.prems"(1) e show ?thesis
      by (simp add: add_fact_loop.simps[of backend ftext u md m a st] Let_def)
  next
    case True
    let ?st = "st\<lparr>add_calls := Suc (add_calls st), slept_ms := slept_ms st + 2000\<rparr>"
    have s: "Suc (nat (m - (a + 1))) = nat (m - a)" using True by simp
    have "\<forall>i < nat (m - (a + 1)). raised (backend (add_calls ?st + i) ftext u md)"
    proof (intro allI impI)
      fix i assume "i < nat (m - (a + 1))"
      then have "Suc i < nat (m - a)" using s by simp
      with "1.prems"(2) have "raised (backend (add_calls st + Suc i) ftext u md)" by blast
      then show "raised (backend (add_calls ?st + i) ftext u md)" by simp
    qed
    moreover have "a + 1 < m" using True by simp
    ultimately have "fst (add_fact_loop backend ftext u md m (a + 1) ?st) = ResNone \<and>
      add_calls (snd (add_fact_loop backend ftext u md m (a + 1) ?st)) = add_calls ?st + nat (m - (a + 1))"
      using "1.IH"[OF "1.prems"(1) refl e True] by simp
    then show ?thesis using e True "1.prems"(1) s
      by (simp add: add_fact_loop.simps[of backend ftext u md m a st] Let_def)
  qed
qed


text \<open>
  C1. For every fact text, user id, metadata and \<open>max_retries \<ge> 1\<close>: \<open>add_fact\<close> makes at
  most \<open>max_retries\<close> backend \<open>add\<close> calls; if the first \<open>k - 1\<close> calls raise and call
  \<open>k \<le> max_retries\<close> returns, exactly \<open>k\<close> calls are made (and that call's result is
  returned); and if all \<open>max_retries\<close> calls raise, \<open>add_fact\<close> returns \<open>None\<close> after
  exactly \<open>max_retries\<close> calls. The function has no raising branch: every exception of
  the backend is caught in the loop.
\<close>

theorem add_fact_retry_bound:
  assumes "1 \<le> max_retries"
  shows "add_calls (snd (add_fact backend self_uid ftext user_id md max_retries st))
           \<le> add_calls st + nat max_retries
       \<and> (\<forall>k r. 1 \<le> k \<and> int k \<le> max_retries
             \<and> (\<forall>i < k - 1. raised (backend (add_calls st + i) ftext
                                  (or_default user_id self_uid) md))
             \<and> backend (add_calls st + (k - 1)) ftext (or_default user_id self_uid) md
                 = Returns r
           \<longrightarrow> fst (add_fact backend self_uid ftext user_id md max_retries st) = r
             \<and> add_calls (snd (add_fact backend self_uid ftext user_id md max_retries st))
                 = add_calls st + k)
       \<and> ((\<forall>i < nat max_retries. raised (backend (add_calls st + i) ftext
                                  (or_default user_id self_uid) md))
           \<longrightarrow> fst (add_fact backend self_uid ftext user_id md max_retries st) = ResNone
             \<and> add_calls (snd (add_fact backend self_uid ftext user_id md max_retries st))
                 = add_calls st + nat max_retries)"
proof (intro conjI allI impI)
  show "add_calls (snd (add_fact backend self_uid ftext user_id md max_retries st))
          \<le> add_calls st + nat max_retries"
    using add_fact_loop_calls_le[of backend ftext "or_default user_id self_uid" md max_retries 0 st]
    by (simp add: add_fact_def)
next
  fix k r
  assume h: "1 \<le> k \<and> int k \<le> max_retries
     \<and> (\<forall>i < k - 1. raised (backend (add_calls st + i) ftext (or_default user_id self_uid) md))
     \<and> backend (add_calls st + (k - 1)) ftext (or_default user_id self_uid) md = Returns r"
  then have lt: "0 + int (k - 1) < max_retries" by auto
  have "fst (add_fact_loop backend ftext (or_default user_id self_uid) md max_retries 0 st) = r
      \<and> add_calls (snd (add_fact_loop backend ftext (or_default user_id self_uid) md
            max_retries 0 st)) = add_calls st + Suc (k - 1)"
    using h by (intro add_fact_loop_first_success[OF lt]) blast+
  with h show "fst (add_fact backend self_uid ftext user_id md max_retries st) = r"
    and "add_calls (snd (add_fact backend self_uid ftext user_id md max_retries st))
           = add_calls st + k"
    by (simp_all add: add_fact_def)
next
  assume h: "\<forall>i < nat max_retries. raised (backend (add_calls st + i) ftext
                                  (or_default user_id self_uid) md)"
  have lt: "0 < max_retries" using assms by simp
  have "fst (add_fact_loop backend ftext (or_default user_id self_uid) md max_retries 0 st)
          = ResNone
      \<and> add_calls (snd (add_fact_loop backend ftext (or_default user_id self_uid) md
            max_retries 0 st)) = add_calls st + nat (max_retries - 0)"
    by (rule add_fact_loop_all_fail[OF lt]) (use h in simp)
  then show "fst (add_fact backend self_uid ftext user_id md max_retries st) = ResNone"
    and "add_calls (snd (add_fact backend self_uid ftext user_id md max_retries st))
           = add_calls st + nat max_retries"
    by (simp_all add: add_fact_def)
qed

theorem add_fact_retry_bound_witness:
  "(1::int) \<le> 3
   \<and> fst (add_fact flaky_backend (str ''bruce'') (str ''Test fact'') None None 3
            \<lparr>add_calls = 0, search_calls = 0, llm_calls = 0, slept_ms = 0\<rparr>)
       = ResDict (Some [\<lparr>rec_id = str ''test-id'', memory = str ''Test memory''\<rparr>])
   \<and> add_calls (snd (add_fact flaky_backend (str ''bruce'') (str ''Test fact'') None None 3
            \<lparr>add_calls = 0, search_calls = 0, llm_calls = 0, slept_ms = 0\<rparr>)) = 2
   \<and> fst (add_fact down_backend (str ''bruce'') (str ''Test fact'') None None 3
            \<lparr>add_calls = 0, search_calls = 0, llm_calls = 0, slept_ms = 0\<rparr>) = ResNone
   \<and> add_calls (snd (add_fact down_backend (str ''bruce'') (str ''Test fact'') None None 3
            \<lparr>add_calls = 0, search_calls = 0, llm_calls = 0, slept_ms = 0\<rparr>)) = 3"
proof -
  have h: "(1::int) \<le> 3" by simp
  have a: "fst (add_fact flaky_backend (str ''bruce'') (str ''Test fact'') None None 3
            \<lparr>add_calls = 0, search_calls = 0, llm_calls = 0, slept_ms = 0\<rparr>)
       = ResDict (Some [\<lparr>rec_id = str ''test-id'', memory = str ''Test memory''\<rparr>])
   \<and> add_calls (snd (add_fact flaky_backend (str ''bruce'') (str ''Test fact'') None None 3
            \<lparr>add_calls = 0, search_calls = 0, llm_calls = 0, slept_ms = 0\<rparr>)) = 0 + 2"
    using add_fact_retry_bound[OF h, where backend = flaky_backend and self_uid = "str ''bruce''"
        and ftext = "str ''Test fact''" and user_id = None and md = None
        and st = "\<lparr>add_calls = 0, search_calls = 0, llm_calls = 0, slept_ms = 0\<rparr>", THEN conjunct2, THEN conjunct1,
        rule_format, of 2
        "ResDict (Some [\<lparr>rec_id = str ''test-id'', memory = str ''Test memory''\<rparr>])"]
    by (simp add: flaky_backend_def)
  have b: "fst (add_fact down_backend (str ''bruce'') (str ''Test fact'') None None 3
            \<lparr>add_calls = 0, search_calls = 0, llm_calls = 0, slept_ms = 0\<rparr>) = ResNone
   \<and> add_calls (snd (add_fact down_backend (str ''bruce'') (str ''Test fact'') None None 3
            \<lparr>add_calls = 0, search_calls = 0, llm_calls = 0, slept_ms = 0\<rparr>)) = 0 + nat 3"
    using add_fact_retry_bound[OF h, where backend = down_backend and self_uid = "str ''bruce''"
        and ftext = "str ''Test fact''" and user_id = None and md = None
        and st = "\<lparr>add_calls = 0, search_calls = 0, llm_calls = 0, slept_ms = 0\<rparr>", THEN conjunct2, THEN conjunct2]
    by (simp add: down_backend_def)
  from h a b show ?thesis by simp
qed

section \<open>Properties of the section splitter\<close>

lemma split_nl_nonempty: "split_nl s \<noteq> []"
  by (induction s) (auto split: list.splits)

lemma split_nl_no_newline: "l \<in> set (split_nl s) \<Longrightarrow> 10 \<notin> set l"
proof (induction s arbitrary: l)
  case Nil
  then show ?case by simp
next
  case (Cons c cs)
  show ?case
  proof (cases "c = 10")
    case True
    with Cons show ?thesis by auto
  next
    case False
    obtain x xs where x: "split_nl cs = x # xs"
      using split_nl_nonempty[of cs] by (cases "split_nl cs") auto
    with Cons False show ?thesis by auto
  qed
qed

lemma split_nl_line: "10 \<notin> set a \<Longrightarrow> split_nl a = [a]"
  by (induction a) auto

lemma split_nl_append: "10 \<notin> set a \<Longrightarrow> split_nl (a @ 10 # b) = a # split_nl b"
  by (induction a) auto

lemma split_join_nl:
  "ls \<noteq> [] \<Longrightarrow> \<forall>l\<in>set ls. 10 \<notin> set l \<Longrightarrow> split_nl (join_nl ls) = ls"
proof (induction ls rule: join_nl.induct)
  case 1
  then show ?case by simp
next
  case (2 l)
  then show ?case by (simp add: split_nl_line)
next
  case (3 l v va)
  then show ?case by (simp add: split_nl_append)
qed

lemma join_split_nl: "join_nl (split_nl s) = s"
proof (induction s)
  case Nil
  then show ?case by simp
next
  case (Cons c cs)
  obtain x xs where x: "split_nl cs = x # xs"
    using split_nl_nonempty[of cs] by (cases "split_nl cs") auto
  show ?case
  proof (cases "c = 10")
    case True
    with Cons x show ?thesis by simp
  next
    case False
    with Cons x show ?thesis by (cases xs) auto
  qed
qed

lemma sections_loop_no_header:
  "\<forall>l\<in>set ls. \<not> is_header l \<Longrightarrow> sections_loop ls (secs, None, cont) = (secs, None, cont)"
proof (induction ls)
  case Nil
  then show ?case by simp
next
  case (Cons a ls)
  from Cons.prems have "re_match header_pattern a = None"
    by (cases "re_match header_pattern a") (auto simp: is_header_def)
  with Cons show ?case by simp
qed

lemma sections_loop_append:
  "sections_loop (xs @ ys) acc = sections_loop ys (sections_loop xs acc)"
proof (induction xs arbitrary: acc)
  case Nil
  then show ?case by simp
next
  case (Cons x xs)
  obtain secs cur cont where acc: "acc = (secs, cur, cont)" by (cases acc) auto
  show ?case unfolding acc using Cons
    by (auto split: option.splits)
qed

lemma sections_loop_open:
  "\<exists>secs' c' cont'. sections_loop ls (secs, Some c, cont) = (secs', Some c', cont')"
  by (induction ls arbitrary: secs c cont) (auto split: option.splits)

lemma sections_loop_header_first:
  "is_header h \<Longrightarrow> \<exists>secs' c' cont'. sections_loop (h # ls) (secs, cur, cont) = (secs', Some c', cont')"
  using sections_loop_open by (auto simp: is_header_def split: option.splits)

lemmas section_eval = extract_sections_def str_def header_pattern_def re_match_def isspace_def
  strip_def flush_section_def group_def is_header_def

text \<open>
  C3, as the code has it. For every non-blank markdown string without a heading line
  (no line that \<open>header_pattern\<close> matches), \<open>extract_sections\<close> returns exactly one
  section, with level 0 and the heading \<open>General Facts from File\<close>; its body is the
  document stripped of leading and trailing whitespace.
\<close>

theorem extract_sections_headerless:
  assumes "strip md \<noteq> []" and "\<forall>line \<in> set (split_nl md). \<not> is_header line"
  shows "extract_sections md =
           [\<lparr>level = 0, header = str ''General Facts from File'', content = strip md\<rparr>]"
  using assms by (simp add: extract_sections_def sections_loop_no_header)

theorem extract_sections_headerless_witness:
  "strip (str ''  plain text\<newline>more\<newline>'') \<noteq> []
   \<and> filter is_header (split_nl (str ''  plain text\<newline>more\<newline>'')) = []
   \<and> extract_sections (str ''  plain text\<newline>more\<newline>'') =
       [\<lparr>level = 0, header = str ''General Facts from File'',
         content = str ''plain text\<newline>more''\<rparr>]"
proof -
  have a: "strip (str ''  plain text\<newline>more\<newline>'') \<noteq> []"
    by (simp add: section_eval)
  have b: "\<forall>line \<in> set (split_nl (str ''  plain text\<newline>more\<newline>'')). \<not> is_header line"
    by (simp add: section_eval)
  have c: "strip (str ''  plain text\<newline>more\<newline>'') = str ''plain text\<newline>more''"
    by (simp add: section_eval)
  have d: "filter is_header (split_nl (str ''  plain text\<newline>more\<newline>'')) = []"
    using b by (simp add: filter_empty_conv)
  from extract_sections_headerless[OF a b] a c d show ?thesis by simp
qed

text \<open>
  The body is not the whole document when the document begins or ends with
  whitespace: the final newline of \<open>hello\<close> is not in the body.
\<close>

theorem extract_sections_headerless_counterexample:
  "strip (str ''hello\<newline>'') \<noteq> []
   \<and> filter is_header (split_nl (str ''hello\<newline>'')) = []
   \<and> extract_sections (str ''hello\<newline>'') =
       [\<lparr>level = 0, header = str ''General Facts from File'', content = str ''hello''\<rparr>]
   \<and> str ''hello'' \<noteq> str ''hello\<newline>''"
  by (simp add: section_eval)

text \<open>
  C9. For every markdown document with at least one heading line, \<open>extract_sections\<close>
  returns what it returns on the document without the lines before the first heading
  line: those lines are in no section.
\<close>

theorem extract_sections_drops_preamble:
  assumes "\<exists>line \<in> set (split_nl md). is_header line"
  shows "extract_sections md =
           extract_sections (join_nl (dropWhile (\<lambda>line. \<not> is_header line) (split_nl md)))"
proof -
  let ?pre = "takeWhile (\<lambda>line. \<not> is_header line) (split_nl md)"
  let ?rest = "dropWhile (\<lambda>line. \<not> is_header line) (split_nl md)"
  from assms have ne: "?rest \<noteq> []" by (auto simp: dropWhile_eq_Nil_conv)
  then obtain h t where ht: "?rest = h # t" by (cases ?rest) auto
  then have h: "is_header h" using hd_dropWhile[OF ne] by simp
  have nonl: "\<forall>l\<in>set ?rest. 10 \<notin> set l"
    using split_nl_no_newline set_dropWhileD by fast
  have sj: "split_nl (join_nl ?rest) = ?rest"
    by (rule split_join_nl[OF ne nonl])
  have "sections_loop (split_nl md) ([], None, []) = sections_loop (?pre @ ?rest) ([], None, [])"
    by simp
  also have "\<dots> = sections_loop ?rest (sections_loop ?pre ([], None, []))"
    by (rule sections_loop_append)
  also have "sections_loop ?pre ([], None, []) = ([], None, [])"
    by (rule sections_loop_no_header) (auto dest: set_takeWhileD)
  finally have eq: "sections_loop (split_nl md) ([], None, []) = sections_loop ?rest ([], None, [])" .
  obtain secs' c' cont' where r: "sections_loop ?rest ([], None, []) = (secs', Some c', cont')"
    using sections_loop_header_first[OF h, of t "[]" None "[]"] ht by auto
  show ?thesis
    by (simp add: extract_sections_def eq sj r)
qed

theorem extract_sections_drops_preamble_witness:
  "(\<exists>line \<in> set (split_nl (str ''intro\<newline># H\<newline>foo'')). is_header line)
   \<and> extract_sections (str ''intro\<newline># H\<newline>foo'') = extract_sections (str ''# H\<newline>foo'')
   \<and> extract_sections (str ''intro\<newline># H\<newline>foo'') =
       [\<lparr>level = 1, header = str ''H'', content = str ''foo''\<rparr>]"
proof -
  have a: "\<exists>line \<in> set (split_nl (str ''intro\<newline># H\<newline>foo'')). is_header line"
    by (simp add: section_eval)
  have b: "join_nl (dropWhile (\<lambda>line. \<not> is_header line) (split_nl (str ''intro\<newline># H\<newline>foo'')))
           = str ''# H\<newline>foo''"
    by (simp add: section_eval)
  have c: "extract_sections (str ''# H\<newline>foo'') = [\<lparr>level = 1, header = str ''H'', content = str ''foo''\<rparr>]"
    by (simp add: section_eval)
  from extract_sections_drops_preamble[OF a] a b c show ?thesis by simp
qed

lemma greedy_prefix:
  "r \<in> set (greedy lo hi P s) \<Longrightarrow> \<exists>pre. s = pre @ r \<and> (\<forall>c\<in>set pre. P c) \<and> lo \<le> length pre"
proof (induction s arbitrary: lo hi)
  case Nil
  then show ?case by (auto split: if_splits)
next
  case (Cons c cs)
  from Cons.prems consider
    (step) "P c" "hi \<noteq> Some 0" "r \<in> set (greedy (lo - 1) (map_option (\<lambda>h. h - 1) hi) P cs)"
    | (stop) "lo = 0" "r = c # cs"
    by (auto split: if_splits)
  then show ?case
  proof cases
    case step
    from Cons.IH[OF step(3)] obtain pre where
      "cs = pre @ r" "\<forall>c\<in>set pre. P c" "lo - 1 \<le> length pre" by blast
    with step(1) have "c # cs = (c # pre) @ r \<and> (\<forall>x\<in>set (c # pre). P x) \<and> lo \<le> length (c # pre)"
      by auto
    then show ?thesis by blast
  next
    case stop
    then show ?thesis by auto
  qed
qed

lemma header_match_groups:
  assumes "re_match header_pattern l = Some (gs, rest)"
  shows "\<exists>g1 g2. gs = [g1, g2] \<and> replicate (length g1) 35 = g1"
proof -
  from assms have "(gs, rest) \<in> set (rx_run header_pattern ([], l))"
    by (auto simp: re_match_def split: list.splits)
  then have "\<exists>r1 g2. r1 \<in> set (greedy 1 (Some 3) (\<lambda>c. c = 35) l)
                 \<and> gs = [take (length l - length r1) l, g2]"
    by (auto simp: header_pattern_def split: if_splits)
  then obtain r1 g2 where
    r1: "r1 \<in> set (greedy 1 (Some 3) (\<lambda>c. c = 35) l)"
    and gs: "gs = [take (length l - length r1) l, g2]"
    by blast
  from greedy_prefix[OF r1] obtain pre where pre: "l = pre @ r1" "\<forall>c\<in>set pre. c = 35" by blast
  then have "take (length l - length r1) l = pre" by simp
  moreover have "replicate (length pre) 35 = pre"
    using pre(2) by (induction pre) auto
  ultimately show ?thesis using gs by simp
qed


lemma render_flush:
  "replicate (length (fst c)) 35 = fst c \<Longrightarrow> cont \<noteq> [] \<Longrightarrow> \<forall>l\<in>set cont. 10 \<notin> set l \<Longrightarrow>
   render_section (flush_section c cont) = heading_line c # cont"
  by (simp add: render_section_def flush_section_def heading_line_def split_join_nl)

lemma sections_loop_render:
  assumes "\<forall>l\<in>set ls. 10 \<notin> set l" and "\<forall>l\<in>set cont. 10 \<notin> set l"
    and "headings_have_body (cont = []) ls"
    and "replicate (length (fst c)) 35 = fst c"
    and "sections_loop ls (secs, Some c, cont) = (secs', Some c', cont')"
  shows "concat (map render_section (secs' @ [flush_section c' cont']))
         = concat (map render_section secs) @ heading_line c # cont @ map normalize_line ls"
  using assms
proof (induction ls arbitrary: secs c cont)
  case Nil
  then show ?case by (simp add: render_flush)
next
  case (Cons l ls)
  show ?case
  proof (cases "re_match header_pattern l")
    case None
    then have nh: "\<not> is_header l" by (simp add: is_header_def)
    have step: "sections_loop ls (secs, Some c, cont @ [l]) = (secs', Some c', cont')"
      using Cons.prems(5) None by simp
    have "concat (map render_section (secs' @ [flush_section c' cont']))
          = concat (map render_section secs) @ heading_line c # (cont @ [l]) @ map normalize_line ls"
      by (rule Cons.IH[OF _ _ _ Cons.prems(4) step]) (use Cons.prems nh in auto)
    then show ?thesis using None by (simp add: normalize_line_def)
  next
    case (Some m)
    obtain gs rest where m: "m = (gs, rest)" by (cases m) auto
    from header_match_groups[OF Some[unfolded m]] obtain g1 g2 where
      gs: "gs = [g1, g2]" and g1: "replicate (length g1) 35 = g1" by blast
    have h: "is_header l" using Some by (simp add: is_header_def)
    with Cons.prems(3) have ne: "cont \<noteq> []" and hb: "headings_have_body True ls" by auto
    have step: "sections_loop ls (secs @ [flush_section c cont], Some (g1, strip g2), [])
                = (secs', Some c', cont')"
      using Cons.prems(5) Some m gs by (simp add: group_def)
    have "concat (map render_section (secs' @ [flush_section c' cont']))
          = concat (map render_section (secs @ [flush_section c cont]))
            @ heading_line (g1, strip g2) # [] @ map normalize_line ls"
      by (rule Cons.IH[OF _ _ _ _ step]) (use Cons.prems hb g1 in auto)
    moreover have "render_section (flush_section c cont) = heading_line c # cont"
      by (rule render_flush) (use Cons.prems ne in auto)
    moreover have "normalize_line l = heading_line (g1, strip g2)"
      using Some m gs by (simp add: normalize_line_def heading_line_def group_def)
    ultimately show ?thesis by simp
  qed
qed

lemma headings_have_body_drop:
  "headings_have_body p ls \<Longrightarrow> \<exists>line\<in>set ls. is_header line \<Longrightarrow>
   headings_have_body False (dropWhile (\<lambda>line. \<not> is_header line) ls)"
proof (induction ls arbitrary: p)
  case Nil
  then show ?case by simp
next
  case (Cons l ls)
  then show ?case by (cases "is_header l") auto
qed

lemmas render_eval = render_sections_def render_section_def normalize_markers_def
  normalize_line_def

text \<open>
  C6, as the code has it. For every markdown input that has a heading line and in
  which every heading line is followed by at least one line that is not a heading,
  the sections, each rendered as its marker, a space, its heading, a newline and its
  body, and joined by newlines, give the input from its first heading line on, with
  every heading line normalised to marker, space and trimmed heading text.
\<close>

theorem sections_round_trip_from_first_header:
  assumes "\<exists>line \<in> set (split_nl md). is_header line"
    and "headings_have_body False (split_nl md)"
  shows "render_sections (extract_sections md) =
           normalize_markers (join_nl (dropWhile (\<lambda>line. \<not> is_header line) (split_nl md)))"
proof -
  let ?pre = "takeWhile (\<lambda>line. \<not> is_header line) (split_nl md)"
  let ?rest = "dropWhile (\<lambda>line. \<not> is_header line) (split_nl md)"
  from assms(1) have ne: "?rest \<noteq> []" by (auto simp: dropWhile_eq_Nil_conv)
  then obtain h t where ht: "?rest = h # t" by (cases ?rest) auto
  then have h: "is_header h" using hd_dropWhile[OF ne] by simp
  then obtain gs rest where m: "re_match header_pattern h = Some (gs, rest)"
    by (auto simp: is_header_def)
  from header_match_groups[OF m] obtain g1 g2 where
    gs: "gs = [g1, g2]" and g1: "replicate (length g1) 35 = g1" by blast
  have nonl: "\<forall>l\<in>set ?rest. 10 \<notin> set l"
    using split_nl_no_newline set_dropWhileD by fast
  have sj: "split_nl (join_nl ?rest) = ?rest"
    by (rule split_join_nl[OF ne nonl])
  have hb: "headings_have_body True t"
    using headings_have_body_drop[OF assms(2) assms(1)] ht h by simp
  have "sections_loop (split_nl md) ([], None, []) = sections_loop (?pre @ ?rest) ([], None, [])"
    by simp
  also have "\<dots> = sections_loop ?rest (sections_loop ?pre ([], None, []))"
    by (rule sections_loop_append)
  also have "sections_loop ?pre ([], None, []) = ([], None, [])"
    by (rule sections_loop_no_header) (auto dest: set_takeWhileD)
  finally have eq: "sections_loop (split_nl md) ([], None, [])
                    = sections_loop t ([], Some (g1, strip g2), [])"
    using ht m gs by (simp add: group_def)
  obtain secs' c' cont' where
    r: "sections_loop t ([], Some (g1, strip g2), []) = (secs', Some c', cont')"
    using sections_loop_open by blast
  have "concat (map render_section (secs' @ [flush_section c' cont']))
        = concat (map render_section []) @ heading_line (g1, strip g2) # [] @ map normalize_line t"
    by (rule sections_loop_render[OF _ _ _ _ r]) (use nonl ht hb g1 in auto)
  moreover have "normalize_line h = heading_line (g1, strip g2)"
    using m gs by (simp add: normalize_line_def heading_line_def group_def)
  ultimately have "concat (map render_section (extract_sections md)) = map normalize_line ?rest"
    by (simp add: extract_sections_def eq r ht)
  then show ?thesis
    by (simp add: render_sections_def normalize_markers_def sj)
qed

theorem sections_round_trip_from_first_header_witness:
  "(\<exists>line \<in> set (split_nl (str ''intro\<newline>#   Title  \<newline>foo\<newline>## Sub\<newline>bar\<newline>'')). is_header line)
   \<and> headings_have_body False (split_nl (str ''intro\<newline>#   Title  \<newline>foo\<newline>## Sub\<newline>bar\<newline>''))
   \<and> render_sections (extract_sections (str ''intro\<newline>#   Title  \<newline>foo\<newline>## Sub\<newline>bar\<newline>''))
       = str ''# Title\<newline>foo\<newline>## Sub\<newline>bar\<newline>''"
proof -
  have a: "\<exists>line \<in> set (split_nl (str ''intro\<newline>#   Title  \<newline>foo\<newline>## Sub\<newline>bar\<newline>'')). is_header line"
    by (simp add: section_eval)
  have b: "headings_have_body False (split_nl (str ''intro\<newline>#   Title  \<newline>foo\<newline>## Sub\<newline>bar\<newline>''))"
    by (simp add: section_eval)
  have c: "normalize_markers (join_nl (dropWhile (\<lambda>line. \<not> is_header line)
             (split_nl (str ''intro\<newline>#   Title  \<newline>foo\<newline>## Sub\<newline>bar\<newline>''))))
           = str ''# Title\<newline>foo\<newline>## Sub\<newline>bar\<newline>''"
    by (simp add: section_eval render_eval)
  from sections_round_trip_from_first_header[OF a b] a b c show ?thesis by simp
qed

text \<open>
  The round trip does not hold for every input: the lines before the first heading
  are lost, a document without headings comes back under a heading it never had, and
  two inputs that differ in a blank line after a heading have the same sections.
\<close>

theorem sections_round_trip_counterexample:
  "render_sections (extract_sections (str ''intro\<newline># H\<newline>foo'')) = str ''# H\<newline>foo''
   \<and> normalize_markers (str ''intro\<newline># H\<newline>foo'') = str ''intro\<newline># H\<newline>foo''
   \<and> str ''# H\<newline>foo'' \<noteq> str ''intro\<newline># H\<newline>foo''
   \<and> render_sections (extract_sections (str ''hello'')) = str '' General Facts from File\<newline>hello''
   \<and> normalize_markers (str ''hello'') = str ''hello''
   \<and> extract_sections (str ''# A\<newline># B'') = extract_sections (str ''# A\<newline>\<newline># B'')
   \<and> normalize_markers (str ''# A\<newline># B'') \<noteq> normalize_markers (str ''# A\<newline>\<newline># B'')"
  by (simp add: section_eval render_eval)

section \<open>Properties of the entry extractor\<close>












lemmas entry_eval = extract_conversation_entries_def entry_of_def entry_pattern_def str_def
  isspace_def strip_def group_def parse_date_def date_patterns_def date_pattern1_def
  date_pattern2_def date_pattern3_def slash_date_rx_def isdigit_def digit_val_def nd_bases_def
  finditer.simps

lemma greedy_zero_nonempty: "greedy 0 hi P s \<noteq> []"
  by (cases s) auto

lemma lazy_reaches_end: "[] \<in> set (lazy (\<lambda>c. True) s)"
  by (induction s) auto

lemma entry_pattern_matches_bullet:
  assumes "c = 45 \<or> c = 42"
  shows "rx_run entry_pattern ([], c # cs) \<noteq> []"
proof -
  obtain r where r: "r \<in> set (greedy 0 None isspace cs)"
    using greedy_zero_nonempty[of None isspace cs] by (cases "greedy 0 None isspace cs") auto
  have "([take (length r) r], []) \<in> set (rx_run entry_pattern ([], c # cs))"
    using assms r lazy_reaches_end[of r]
    by (force simp: entry_pattern_def)
  then show ?thesis by auto
qed

lemma finditer_bullet:
  "\<exists>c\<in>set s. c = 45 \<or> c = 42 \<Longrightarrow> finditer entry_pattern s \<noteq> []"
proof (induction s)
  case Nil
  then show ?case by simp
next
  case (Cons c cs)
  show ?case
  proof (cases "rx_run entry_pattern ([], c # cs)")
    case (Cons m ms)
    then show ?thesis by (simp add: finditer.simps[of entry_pattern "c # cs"] split: prod.splits)
  next
    case Nil
    with entry_pattern_matches_bullet[of c cs] have "\<not> (c = 45 \<or> c = 42)" by blast
    with Cons.prems have "\<exists>c\<in>set cs. c = 45 \<or> c = 42" by auto
    with Cons.IH Nil show ?thesis by (simp add: finditer.simps[of entry_pattern "c # cs"])
  qed
qed




text \<open>
  C10. The bullet pattern matches at a hyphen or asterisk wherever it stands in the
  body: a body with such a character has a match of \<open>entry_pattern\<close>, its entries are
  those of the matches, and the fallback over the lines is not used. In
  \<open>well-known fact\<close> the only hyphen is inside a word, and the one entry is the text
  after it.
\<close>

theorem bullet_anywhere_starts_entry:
  assumes "\<exists>c\<in>set body. c = 45 \<or> c = 42"
  shows "finditer entry_pattern body \<noteq> []
       \<and> extract_conversation_entries strptime body =
           map (\<lambda>gs. entry_of strptime (group gs 1)) (finditer entry_pattern body)"
  using finditer_bullet[OF assms] by (simp add: extract_conversation_entries_def)

theorem bullet_anywhere_starts_entry_witness:
  "filter (\<lambda>c. c = 45 \<or> c = 42) (str ''well-known fact'') = [45]
   \<and> strip (str ''well-known fact'') \<noteq> []
   \<and> finditer entry_pattern (str ''well-known fact'') = [[str ''known fact'']]
   \<and> extract_conversation_entries py_strptime (str ''well-known fact'') =
       [\<lparr>timestamp = None, entry_content = str ''known fact''\<rparr>]"
proof -
  have a: "\<exists>c\<in>set (str ''well-known fact''). c = 45 \<or> c = 42"
    by (simp add: str_def)
  have b: "filter (\<lambda>c. c = 45 \<or> c = 42) (str ''well-known fact'') = [45]"
    by (simp add: str_def)
  have c: "strip (str ''well-known fact'') \<noteq> []"
    by (simp add: str_def strip_def isspace_def)
  have d: "finditer entry_pattern (str ''well-known fact'') = [[str ''known fact'']]"
    by (simp add: entry_pattern_def str_def isspace_def finditer.simps)
  have e: "entry_of py_strptime (str ''known fact'') = \<lparr>timestamp = None, entry_content = str ''known fact''\<rparr>"
    by (simp add: entry_eval)
  from bullet_anywhere_starts_entry[OF a, of py_strptime] b c d e show ?thesis
    by (simp add: group_def)
qed

section \<open>Properties of the date parser\<close>

lemma parse_date_loop_None:
  "parse_date_loop strptime ps s = None \<longleftrightarrow> list_all (pattern_fails strptime s) ps"
  by (induction ps) (auto simp: pattern_fails_def split: option.splits fmt_loop.splits)

lemma try_formats_Exhausted:
  "try_formats strptime t fs = Exhausted \<longleftrightarrow> list_all (\<lambda>f. strptime t f = ValueError) fs"
  by (induction fs) (auto split: strp_result.splits)

lemmas date_eval = str_def isspace_def strip_def group_def parse_date_def date_patterns_def
  date_pattern1_def date_pattern2_def date_pattern3_def slash_date_rx_def isdigit_def
  digit_val_def nd_bases_def

lemmas strptime_eval = py_strptime_def date_formats_def directive_rx_def ci_def ch_def rng_def
  a_month_def f_month_def ascii_lower_def py_int_def hour12_def valid_datetime_def
  days_in_month_def is_leap_def Let_def

text \<open>
  C7, as the code has it. For every input string and every behaviour of \<open>strptime\<close>,
  \<open>parse_date\<close> returns \<open>None\<close> when no pattern matches; and it returns \<open>None\<close> exactly
  when every pattern either does not match or matches a text that no format parses:
  after a pattern whose text fails all formats, the next pattern is tried. The
  function returns a value in every case.
\<close>

theorem parse_date_none:
  "((\<forall>pattern\<in>set date_patterns. re_search pattern s = None) \<longrightarrow> parse_date strptime s = None)
   \<and> (parse_date strptime s = None
        \<longleftrightarrow> (\<forall>pattern\<in>set date_patterns. pattern_fails strptime s pattern))"
proof -
  have "\<forall>pattern\<in>set date_patterns. re_search pattern s = None
        \<Longrightarrow> \<forall>pattern\<in>set date_patterns. pattern_fails strptime s pattern"
    by (simp add: pattern_fails_def)
  then show ?thesis by (auto simp: parse_date_def parse_date_loop_None list_all_iff)
qed

theorem parse_date_none_witness:
  "re_search date_pattern1 (str ''3/29/25 14:30'') = Some ([], [str ''3/29/25 14:30''], [])
   \<and> try_formats py_strptime (str ''3/29/25 14:30'') date_formats = Exhausted
   \<and> parse_date py_strptime (str ''3/29/25 14:30'') = None
   \<and> parse_date py_strptime (str ''not a date'') = None"
proof -
  have a: "re_search date_pattern1 (str ''3/29/25 14:30'') = Some ([], [str ''3/29/25 14:30''], [])"
    by (simp add: date_eval)
  have b: "try_formats py_strptime (str ''3/29/25 14:30'') date_formats = Exhausted"
    by (simp add: date_eval strptime_eval)
  have c: "re_search date_pattern2 (str ''3/29/25 14:30'') = None"
    by (simp add: date_eval)
  have d: "re_search date_pattern3 (str ''3/29/25 14:30'') = None"
    by (simp add: date_eval)
  have e: "\<forall>pattern\<in>set date_patterns. pattern_fails py_strptime (str ''3/29/25 14:30'') pattern"
    using a b c d by (simp add: date_patterns_def pattern_fails_def group_def)
  have f: "\<forall>pattern\<in>set date_patterns. re_search pattern (str ''not a date'') = None"
    by (simp add: date_eval)
  from parse_date_none[of "str ''3/29/25 14:30''" py_strptime] e
  have g: "parse_date py_strptime (str ''3/29/25 14:30'') = None" by blast
  from parse_date_none[of "str ''not a date''" py_strptime] f
  have h: "parse_date py_strptime (str ''not a date'') = None" by blast
  from a b g h show ?thesis by simp
qed

text \<open>
  The first pattern matches \<open>3/29/25 14:30\<close> and no format parses it (it has no
  AM or PM), yet the result is the date of the second pattern's match.
\<close>

theorem parse_date_first_grammar_counterexample:
  "re_search date_pattern1 (str ''3/29/25 14:30 2025-03-29 14:30'')
     = Some ([], [str ''3/29/25 14:30 ''], str ''2025-03-29 14:30'')
   \<and> try_formats py_strptime (str ''3/29/25 14:30 '') date_formats = Exhausted
   \<and> parse_date py_strptime (str ''3/29/25 14:30 2025-03-29 14:30'')
     = Some \<lparr>year = 2025, month = 3, day = 29, hour = 14, minute = 30, second = 0\<rparr>"
  by (simp add: date_eval strptime_eval)

section \<open>Properties of the timestamp split\<close>















section \<open>Properties of chat\<close>

lemmas chat_eval = chat_def search_memories_def call_ollama_api_def Let_def str_def strip_def
  isspace_def

text \<open>
  C8, as the code has it. For every query and user id \<open>chat\<close> returns a string. A
  failure of the search is caught inside \<open>search_memories\<close>: \<open>chat\<close> then does what it
  does when the search returns nothing, and goes on to the model. A failure of the
  request to the model is caught at the top of \<open>chat\<close> and turned into the apology
  \<open>Sorry, I encountered an error: \<close> followed by the message of the exception.
\<close>

theorem chat_failure_handling:
  "((\<exists>e. search (search_calls st) query (or_default user_id self_uid)
            (or_default_int max_context cfg_max) = Raises e) \<longrightarrow>
      chat search ollama self_uid cfg_max query user_id max_context st
        = chat (\<lambda>n q u l. Returns ResNone) ollama self_uid cfg_max query user_id max_context st)
   \<and> ((\<forall>prompt. ollama (llm_calls st) prompt = Raises e) \<longrightarrow>
      fst (chat search ollama self_uid cfg_max query user_id max_context st)
        = str ''Sorry, I encountered an error: '' @ e)
   \<and> ((\<forall>prompt. ollama (llm_calls st) prompt = Returns (Some response)) \<longrightarrow>
      fst (chat search ollama self_uid cfg_max query user_id max_context st) = strip response)"
proof (intro conjI impI)
  assume "\<exists>e. search (search_calls st) query (or_default user_id self_uid)
            (or_default_int max_context cfg_max) = Raises e"
  then obtain e where e: "search (search_calls st) query (or_default user_id self_uid)
            (or_default_int max_context cfg_max) = Raises e" by blast
  have u: "or_default (Some (or_default user_id self_uid)) self_uid = or_default user_id self_uid"
    by (cases user_id) auto
  have "search_memories search self_uid query (Some (or_default user_id self_uid))
          (or_default_int max_context cfg_max) st
        = search_memories (\<lambda>n q u l. Returns ResNone) self_uid query
          (Some (or_default user_id self_uid)) (or_default_int max_context cfg_max) st"
    unfolding search_memories_def u by (simp add: e)
  then show "chat search ollama self_uid cfg_max query user_id max_context st
        = chat (\<lambda>n q u l. Returns ResNone) ollama self_uid cfg_max query user_id max_context st"
    by (simp add: chat_def Let_def)
next
  assume a: "\<forall>prompt. ollama (llm_calls st) prompt = Raises e"
  obtain memories st1 where m: "search_memories search self_uid query
      (Some (or_default user_id self_uid)) (or_default_int max_context cfg_max) st = (memories, st1)"
    by (cases "search_memories search self_uid query
      (Some (or_default user_id self_uid)) (or_default_int max_context cfg_max) st") auto
  then have "llm_calls st1 = llm_calls st" by (auto simp: search_memories_def)
  with a have "\<And>prompt. ollama (llm_calls st1) prompt = Raises e" by simp
  then show "fst (chat search ollama self_uid cfg_max query user_id max_context st)
        = str ''Sorry, I encountered an error: '' @ e"
    by (simp add: chat_def m call_ollama_api_def Let_def)
next
  assume a: "\<forall>prompt. ollama (llm_calls st) prompt = Returns (Some response)"
  obtain memories st1 where m: "search_memories search self_uid query
      (Some (or_default user_id self_uid)) (or_default_int max_context cfg_max) st = (memories, st1)"
    by (cases "search_memories search self_uid query
      (Some (or_default user_id self_uid)) (or_default_int max_context cfg_max) st") auto
  then have "llm_calls st1 = llm_calls st" by (auto simp: search_memories_def)
  with a have "\<And>prompt. ollama (llm_calls st1) prompt = Returns (Some response)" by simp
  then show "fst (chat search ollama self_uid cfg_max query user_id max_context st)
        = strip response"
    by (simp add: chat_def m call_ollama_api_def Let_def)
qed

theorem chat_failure_handling_witness:
  "fst (chat (\<lambda>n q u l. Raises (str ''db down'')) (\<lambda>n p. Raises (str ''timeout''))
          (str ''bruce'') 5 (str ''Where do I live?'') None None
          \<lparr>add_calls = 0, search_calls = 0, llm_calls = 0, slept_ms = 0\<rparr>)
     = str ''Sorry, I encountered an error: timeout''
   \<and> chat (\<lambda>n q u l. Raises (str ''db down'')) (\<lambda>n p. Raises (str ''timeout''))
          (str ''bruce'') 5 (str ''Where do I live?'') None None
          \<lparr>add_calls = 0, search_calls = 0, llm_calls = 0, slept_ms = 0\<rparr>
     = chat (\<lambda>n q u l. Returns ResNone) (\<lambda>n p. Raises (str ''timeout''))
          (str ''bruce'') 5 (str ''Where do I live?'') None None
          \<lparr>add_calls = 0, search_calls = 0, llm_calls = 0, slept_ms = 0\<rparr>"
proof -
  note t = chat_failure_handling[where search = "\<lambda>n q u l. Raises (str ''db down'')"
      and ollama = "\<lambda>n p. Raises (str ''timeout'')" and self_uid = "str ''bruce''"
      and cfg_max = 5 and query = "str ''Where do I live?''" and user_id = None
      and max_context = None and e = "str ''timeout''"
      and st = "\<lparr>add_calls = 0, search_calls = 0, llm_calls = 0, slept_ms = 0\<rparr>"]
  have a: "fst (chat (\<lambda>n q u l. Raises (str ''db down'')) (\<lambda>n p. Raises (str ''timeout''))
          (str ''bruce'') 5 (str ''Where do I live?'') None None
          \<lparr>add_calls = 0, search_calls = 0, llm_calls = 0, slept_ms = 0\<rparr>)
     = str ''Sorry, I encountered an error: '' @ str ''timeout''"
    by (rule t[THEN conjunct2, THEN conjunct1, rule_format]) simp
  have b: "chat (\<lambda>n q u l. Raises (str ''db down'')) (\<lambda>n p. Raises (str ''timeout''))
          (str ''bruce'') 5 (str ''Where do I live?'') None None
          \<lparr>add_calls = 0, search_calls = 0, llm_calls = 0, slept_ms = 0\<rparr>
     = chat (\<lambda>n q u l. Returns ResNone) (\<lambda>n p. Raises (str ''timeout''))
          (str ''bruce'') 5 (str ''Where do I live?'') None None
          \<lparr>add_calls = 0, search_calls = 0, llm_calls = 0, slept_ms = 0\<rparr>"
    by (rule t[THEN conjunct1, rule_format]) simp
  have c: "str ''Sorry, I encountered an error: '' @ str ''timeout''
           = str ''Sorry, I encountered an error: timeout''"
    by (simp add: str_def)
  from a b c show ?thesis by (simp only: simp_thms)
qed

text \<open>
  With the search down and the model up, the result is the model's answer and no
  apology; and two failures of the model give two different strings.
\<close>

theorem chat_apology_counterexample:
  "fst (chat (\<lambda>n q u l. Raises (str ''db down'')) (\<lambda>n p. Returns (Some (str ''You live in Seattle.'')))
          (str ''bruce'') 5 (str ''Where do I live?'') None None
          \<lparr>add_calls = 0, search_calls = 0, llm_calls = 0, slept_ms = 0\<rparr>)
     = str ''You live in Seattle.''
   \<and> fst (chat (\<lambda>n q u l. Returns ResNone) (\<lambda>n p. Raises (str ''timeout''))
          (str ''bruce'') 5 (str ''Where do I live?'') None None
          \<lparr>add_calls = 0, search_calls = 0, llm_calls = 0, slept_ms = 0\<rparr>)
     \<noteq> fst (chat (\<lambda>n q u l. Returns ResNone) (\<lambda>n p. Raises (str ''refused''))
          (str ''bruce'') 5 (str ''Where do I live?'') None None
          \<lparr>add_calls = 0, search_calls = 0, llm_calls = 0, slept_ms = 0\<rparr>)"
  by (simp add: chat_eval)

section \<open>Properties of the counters\<close>

lemma add_fact_loop_no_results:
  "\<forall>n f u m r. backend n f u m = Returns r \<longrightarrow> \<not> has_results r \<Longrightarrow>
   \<not> has_results (fst (add_fact_loop backend ftext u md m a st))"
proof (induction backend ftext u md m a st rule: add_fact_loop.induct)
  case (1 backend ftext u md m a st)
  show ?case
  proof (cases "backend (add_calls st) ftext u md")
    case (Returns r)
    with "1.prems" have "\<not> has_results r" by blast
    with Returns show ?thesis
      by (simp add: add_fact_loop.simps[of backend ftext u md m a st] Let_def)
  next
    case (Raises e)
    show ?thesis
    proof (cases "a < m \<and> a < m - 1")
      case True
      with "1.IH"[OF _ refl Raises _ "1.prems"] Raises show ?thesis
        by (simp add: add_fact_loop.simps[of backend ftext u md m a st] Let_def)
    next
      case False
      with Raises show ?thesis
        by (auto simp add: add_fact_loop.simps[of backend ftext u md m a st] Let_def)
    qed
  qed
qed

lemma add_facts_count:
  "fst (add_facts sv self_uid uid md facts added st)
   = added + length (filter has_results (add_results sv self_uid uid md facts st))"
  by (induction facts arbitrary: added st) (auto split: prod.splits)

lemma add_results_no_results:
  assumes "\<forall>n f u m r. sv_add sv n f u m = Returns r \<longrightarrow> \<not> has_results r"
  shows "filter has_results (add_results sv self_uid uid md facts st) = []"
proof (induction facts arbitrary: st)
  case Nil
  then show ?case by simp
next
  case (Cons f fs)
  have "\<not> has_results (fst (add_fact (sv_add sv) self_uid f (Some uid) md 3 st))"
    unfolding add_fact_def by (rule add_fact_loop_no_results[OF assms])
  with Cons show ?case by (auto split: prod.splits)
qed

lemma process_entries_no_results:
  assumes "\<forall>n f u m r. sv_add sv n f u m = Returns r \<longrightarrow> \<not> has_results r"
  shows "snd (fst (process_entries sv self_uid uid hdr es (tot, added) st)) = added"
proof (induction es arbitrary: tot st)
  case Nil
  then show ?case by simp
next
  case (Cons e es)
  show ?case
  proof (cases "entry_content e = [] \<or> length (strip (entry_content e)) < 10")
    case True
    with Cons show ?thesis by simp
  next
    case False
    obtain facts st1 where f: "extract_facts_with_llm sv hdr (entry_content e) (timestamp e) st
                               = (facts, st1)"
      by (cases "extract_facts_with_llm sv hdr (entry_content e) (timestamp e) st") auto
    let ?md = "case timestamp e of Some t \<Rightarrow> Some [(str ''timestamp'', isoformat t)]
               | None \<Rightarrow> Some []"
    obtain added' st2 where a: "add_facts sv self_uid uid ?md facts added st1 = (added', st2)"
      by (cases "add_facts sv self_uid uid ?md facts added st1") auto
    have "added' = added"
      using add_facts_count[of sv self_uid uid ?md facts added st1]
        add_results_no_results[OF assms, of self_uid uid ?md facts st1] a by simp
    with False f a Cons show ?thesis by simp
  qed
qed

lemma process_sections_no_results:
  assumes "\<forall>n f u m r. sv_add sv n f u m = Returns r \<longrightarrow> \<not> has_results r"
  shows "snd (fst (process_sections sv self_uid uid secs (tot, added) st)) = added"
proof (induction secs arbitrary: tot st)
  case Nil
  then show ?case by simp
next
  case (Cons sec secs)
  obtain tot' added' st1 where
    p: "process_entries sv self_uid uid (header sec)
          (extract_conversation_entries (sv_strptime sv) (content sec)) (tot, added) st
        = ((tot', added'), st1)"
    by (cases "process_entries sv self_uid uid (header sec)
          (extract_conversation_entries (sv_strptime sv) (content sec)) (tot, added) st") auto
  with process_entries_no_results[OF assms, of self_uid uid "header sec"
      "extract_conversation_entries (sv_strptime sv) (content sec)" tot added st]
  have "added' = added" by simp
  with p Cons show ?case by simp
qed

lemmas file_eval = process_file_def notes_services_def empty_backend_def extract_sections_def
  header_pattern_def re_match_def flush_section_def extract_conversation_entries_def
  entry_of_def entry_pattern_def split_pattern_def re_split1_def finditer.simps
  extract_facts_with_llm_def call_ollama_api_def add_fact_def add_fact_loop.simps
  strftime_recorded_def strftime_year_def month_names_def isoformat_def pad2_def pad4_def
  str_def isspace_def strip_def group_def parse_date_def date_patterns_def
  date_pattern1_def date_pattern2_def date_pattern3_def slash_date_rx_def isdigit_def
  digit_val_def nd_bases_def
  py_strptime_def date_formats_def directive_rx_def ci_def ch_def rng_def
  a_month_def f_month_def ascii_lower_def py_int_def hour12_def valid_datetime_def
  days_in_month_def is_leap_def Let_def

text \<open>
  C2. When a backend call of \<open>add_fact\<close> returns a result without created records
  (after any number of failed calls), \<open>add_fact\<close> returns that result and makes no
  further call. The loop of \<open>process_file\<close> over the facts raises \<open>added_facts\<close> by the
  number of \<open>add_fact\<close> results that hold a non-empty record list; so with a backend
  whose calls never create a record, \<open>process_file\<close> reports \<open>added_facts = 0\<close>.
\<close>

theorem zero_record_success_not_counted:
  "(\<forall>j r. int j < max_retries
          \<and> (\<forall>i<j. raised (backend (add_calls st + i) ftext (or_default user_id self_uid) md))
          \<and> backend (add_calls st + j) ftext (or_default user_id self_uid) md = Returns r
          \<and> \<not> has_results r
        \<longrightarrow> fst (add_fact backend self_uid ftext user_id md max_retries st) = r
          \<and> add_calls (snd (add_fact backend self_uid ftext user_id md max_retries st))
              = add_calls st + Suc j)
   \<and> fst (add_facts sv self_uid uid md' facts added st)
       = added + length (filter has_results (add_results sv self_uid uid md' facts st))
   \<and> ((\<forall>n f u m r. sv_add sv n f u m = Returns r \<longrightarrow> \<not> has_results r)
        \<longrightarrow> snd (fst (process_file sv self_uid file_path user_id st)) = 0)"
proof (intro conjI allI impI)
  fix j r
  assume h: "int j < max_retries
          \<and> (\<forall>i<j. raised (backend (add_calls st + i) ftext (or_default user_id self_uid) md))
          \<and> backend (add_calls st + j) ftext (or_default user_id self_uid) md = Returns r
          \<and> \<not> has_results r"
  then have lt: "0 + int j < max_retries" by simp
  have "fst (add_fact_loop backend ftext (or_default user_id self_uid) md max_retries 0 st) = r
      \<and> add_calls (snd (add_fact_loop backend ftext (or_default user_id self_uid) md
            max_retries 0 st)) = add_calls st + Suc j"
    using h by (intro add_fact_loop_first_success[OF lt]) blast+
  then show "fst (add_fact backend self_uid ftext user_id md max_retries st) = r"
    and "add_calls (snd (add_fact backend self_uid ftext user_id md max_retries st))
           = add_calls st + Suc j"
    by (simp_all add: add_fact_def)
next
  show "fst (add_facts sv self_uid uid md' facts added st)
       = added + length (filter has_results (add_results sv self_uid uid md' facts st))"
    by (rule add_facts_count)
next
  assume a: "\<forall>n f u m r. sv_add sv n f u m = Returns r \<longrightarrow> \<not> has_results r"
  show "snd (fst (process_file sv self_uid file_path user_id st)) = 0"
    using process_sections_no_results[OF a, of self_uid "or_default user_id self_uid" _ 0 0 st]
    by (cases "sv_read_file sv file_path") (simp_all add: process_file_def)
qed

theorem zero_record_success_not_counted_witness:
  "fst (add_fact empty_backend (str ''bruce'') (str ''User loves pizza'') None None 3
          \<lparr>add_calls = 0, search_calls = 0, llm_calls = 0, slept_ms = 0\<rparr>) = ResDict (Some [])
   \<and> add_calls (snd (add_fact empty_backend (str ''bruce'') (str ''User loves pizza'') None None 3
          \<lparr>add_calls = 0, search_calls = 0, llm_calls = 0, slept_ms = 0\<rparr>)) = 1
   \<and> snd (fst (process_file notes_services (str ''bruce'') (str ''notes.md'') None
          \<lparr>add_calls = 0, search_calls = 0, llm_calls = 0, slept_ms = 0\<rparr>)) = 0
   \<and> process_file notes_services (str ''bruce'') (str ''notes.md'') None
          \<lparr>add_calls = 0, search_calls = 0, llm_calls = 0, slept_ms = 0\<rparr>
       = ((2, 0), \<lparr>add_calls = 2, search_calls = 0, llm_calls = 1, slept_ms = 500\<rparr>)"
proof -
  note t = zero_record_success_not_counted[where backend = empty_backend
      and sv = notes_services and self_uid = "str ''bruce''" and ftext = "str ''User loves pizza''"
      and user_id = None and md = None and max_retries = 3 and file_path = "str ''notes.md''"
      and st = "\<lparr>add_calls = 0, search_calls = 0, llm_calls = 0, slept_ms = 0\<rparr>"]
  have a: "fst (add_fact empty_backend (str ''bruce'') (str ''User loves pizza'') None None 3
          \<lparr>add_calls = 0, search_calls = 0, llm_calls = 0, slept_ms = 0\<rparr>) = ResDict (Some [])
   \<and> add_calls (snd (add_fact empty_backend (str ''bruce'') (str ''User loves pizza'') None None 3
          \<lparr>add_calls = 0, search_calls = 0, llm_calls = 0, slept_ms = 0\<rparr>))
       = add_calls \<lparr>add_calls = 0, search_calls = 0, llm_calls = 0, slept_ms = 0\<rparr> + Suc 0"
    by (rule t[THEN conjunct1, rule_format]) (simp add: empty_backend_def)
  have b: "snd (fst (process_file notes_services (str ''bruce'') (str ''notes.md'') None
          \<lparr>add_calls = 0, search_calls = 0, llm_calls = 0, slept_ms = 0\<rparr>)) = 0"
    by (rule t[THEN conjunct2, THEN conjunct2, rule_format])
       (simp add: notes_services_def empty_backend_def)
  have c: "process_file notes_services (str ''bruce'') (str ''notes.md'') None
          \<lparr>add_calls = 0, search_calls = 0, llm_calls = 0, slept_ms = 0\<rparr>
       = ((2, 0), \<lparr>add_calls = 2, search_calls = 0, llm_calls = 1, slept_ms = 500\<rparr>)"
    by (simp add: file_eval)
  from a b c show ?thesis by simp
qed

end
